theory Spec2Isabelle
  imports Complex_Main "HOL-Library.Word" "HOL-Library.Signed_Division"
begin

unbundle bit_operations_syntax

section \<open>The Chrome profile importer (brave/utility/importer/chrome\_importer.cc)\<close>

text \<open>
  A shallow embedding of \<^verbatim>\<open>ChromeImporter\<close>: the importer reads the History,
  Bookmarks, Favicons, Cookies and Login Data stores of a Chrome profile and forwards
  normalised records to an \<^verbatim>\<open>ImporterBridge\<close>. The files of the profile are
  an input of the model, the calls on the bridge are its output (a list, in call order),
  and the host's cancellation flag is an oracle that is read once per call of
  \<^verbatim>\<open>cancelled()\<close>.
\<close>

subsection \<open>TimeCodec: \<^verbatim>\<open>chromeTimeToDouble\<close>\<close>

type_synonym int64_t = "64 word"

text \<open>
  C++ division of two \<^verbatim>\<open>int64_t\<close> truncates towards zero; \<open>sdiv\<close> on
  \<^typ>\<open>int\<close> is that division, and the quotient is stored back in 64 bits.
\<close>

definition int64_div :: "int64_t \<Rightarrow> int64_t \<Rightarrow> int64_t" where
  "int64_div a b = word_of_int (sint a sdiv sint b)"

text \<open>
  \<^verbatim>\<open>return ((time * 10 - 0x19DB1DED53E8000) / 10000) / 1000;\<close>
  The expression is evaluated in \<^verbatim>\<open>int64_t\<close> (multiplication and subtraction
  wrap here, as on the two's complement targets the importer is built for) and the
  integral quotient is then converted to the \<^verbatim>\<open>double\<close> that is returned. The
  model returns that quotient as an \<^typ>\<open>int\<close>: its magnitude is below \<open>2 ^ 53\<close>
  (lemma \<open>chromeTimeToDouble_exact_as_double\<close>), so the conversion is exact.
\<close>

definition chromeTimeToDouble :: "int64_t \<Rightarrow> int" where
  "chromeTimeToDouble time =
     sint (int64_div (int64_div (time * 10 - 0x19DB1DED53E8000) 10000) 1000)"


subsection \<open>Values of the libraries the importer is built on\<close>

text \<open>
  \<^verbatim>\<open>GURL\<close> (url/gurl.h): the canonical spec, whether the URL is valid, and its scheme.
  Two \<^verbatim>\<open>GURL\<close>s are compared by their specs; validity and scheme are read off the
  spec's parse. Canonicalisation is the library's and enters the model as the function
  \<open>GURL_of\<close> of the record \<open>externals\<close> below.
\<close>

datatype GURL = GURL (possibly_invalid_spec: string) (is_valid: bool) (scheme: string)

text \<open>\<^verbatim>\<open>GURL()\<close>: the empty, invalid URL.\<close>

definition GURL_default :: GURL where
  "GURL_default = GURL [] False []"

definition kDataScheme :: string where
  "kDataScheme = ''data''"

definition SchemeIs :: "GURL \<Rightarrow> string \<Rightarrow> bool" where
  "SchemeIs u lower_ascii_scheme = (scheme u = lower_ascii_scheme)"

text \<open>
  \<^verbatim>\<open>base::Time::FromDoubleT(d)\<close>: the instant \<open>d\<close> seconds after the Unix epoch. The
  importer only ever passes the integral result of \<open>chromeTimeToDouble\<close>.
\<close>

datatype Time = FromDoubleT int

text \<open>
  \<^verbatim>\<open>base::Value\<close>, the result of \<^verbatim>\<open>base::JSONReader::Read\<close>. A dictionary is
  its list of key/value pairs; a key is looked up with \<open>map_of\<close>. None of the keys the
  importer asks for contains a dot, so the path expansion of \<^verbatim>\<open>DictionaryValue\<close> is
  a plain lookup.
\<close>

datatype Value = NONE | BOOLEAN bool | INTEGER int | DOUBLE real | STRING string
  | BINARY string | DICTIONARY "(string \<times> Value) list" | LIST "Value list"

type_synonym DictionaryValue = "(string \<times> Value) list"

fun GetAsDictionary :: "Value \<Rightarrow> DictionaryValue option" where
  "GetAsDictionary (DICTIONARY d) = Some d"
| "GetAsDictionary _ = None"

text \<open>
  \<^verbatim>\<open>dict->GetString(key, &out)\<close>: \<open>out\<close> is overwritten when the key is present and
  holds a string and is left as it was otherwise (the importer ignores the returned flag).
\<close>

definition GetString :: "DictionaryValue \<Rightarrow> string \<Rightarrow> string \<Rightarrow> string" where
  "GetString dict key out = (case map_of dict key of Some (STRING s) \<Rightarrow> s | _ \<Rightarrow> out)"

definition GetDictionary :: "DictionaryValue \<Rightarrow> string \<Rightarrow> DictionaryValue option" where
  "GetDictionary dict key =
     (case map_of dict key of Some (DICTIONARY d) \<Rightarrow> Some d | _ \<Rightarrow> None)"

definition GetList :: "DictionaryValue \<Rightarrow> string \<Rightarrow> Value list option" where
  "GetList dict key = (case map_of dict key of Some (LIST l) \<Rightarrow> Some l | _ \<Rightarrow> None)"

text \<open>
  \<^verbatim>\<open>std::stoll(str)\<close>, base 10: leading white space is skipped, an optional sign is
  read, then the longest run of decimal digits; what follows is ignored. With no digit it
  throws \<^verbatim>\<open>std::invalid_argument\<close>, with a value outside \<^verbatim>\<open>long long\<close> it throws
  \<^verbatim>\<open>std::out_of_range\<close>. Nothing in the importer catches either exception.
\<close>

datatype cpp_exception = invalid_argument | out_of_range

definition isspace :: "char \<Rightarrow> bool" where
  "isspace c = (c \<in> set [CHR '' '', CHR 0x09, CHR 0x0A, CHR 0x0B, CHR 0x0C, CHR 0x0D])"

definition isdigit :: "char \<Rightarrow> bool" where
  "isdigit c = (48 \<le> (of_char c :: int) \<and> (of_char c :: int) \<le> 57)"

definition digit_value :: "char \<Rightarrow> int" where
  "digit_value c = of_char c - 48"

definition stoll :: "string \<Rightarrow> cpp_exception + int64_t" where
  "stoll str =
     (let s1 = dropWhile isspace str;
          negative = (s1 \<noteq> [] \<and> hd s1 = CHR ''-'');
          s2 = (if s1 \<noteq> [] \<and> (hd s1 = CHR ''-'' \<or> hd s1 = CHR ''+'') then tl s1 else s1);
          digits = takeWhile isdigit s2;
          magnitude = foldl (\<lambda>acc c. acc * 10 + digit_value c) 0 digits;
          v = (if negative then - magnitude else magnitude)
      in if digits = [] then Inl invalid_argument
         else if v < - (2 ^ 63) \<or> 2 ^ 63 - 1 < v then Inl out_of_range
         else Inr (word_of_int v))"

text \<open>
  The collaborators whose code is outside the importer: the URL canonicaliser, the JSON
  reader and the favicon codec (\<^verbatim>\<open>importer::ReencodeFavicon\<close>, \<open>None\<close> when it
  returns false).
\<close>

record externals =
  GURL_of :: "string \<Rightarrow> GURL"
  JSONReader_Read :: "string \<Rightarrow> Value option"
  ReencodeFavicon :: "string \<Rightarrow> string option"

subsection \<open>The records handed to the bridge\<close>

record ImporterURLRow =
  history_url :: GURL
  title :: string
  last_visit :: Time
  hidden :: bool
  typed_count :: "32 word"
  visit_count :: "32 word"

record ImportedBookmarkEntry =
  in_toolbar :: bool
  is_folder :: bool
  bookmark_url :: GURL
  path :: "string list"
  bookmark_title :: string
  creation_time :: Time

record FaviconUsageData =
  favicon_url :: GURL
  png_data :: string
  urls :: "GURL set"

record ImportedCookieEntry =
  domain :: string
  cookie_name :: string
  cookie_value :: string
  host :: string
  cookie_path :: string
  expiry_date :: Time
  secure :: bool
  httponly :: bool

datatype PasswordForm =
  PasswordForm (signon_realm: string) (username_value: string) (password_value: string)
    (blacklisted_by_user: bool)

text \<open>
  Modelled from the spec: the requested items are a bitset over History, Favorites,
  Cookies and Passwords. The enumeration \<^verbatim>\<open>importer::ImportItem\<close> is declared in a
  header that is not among the sources; each category has a bit of its own, here bits 0
  to 3 in the order of the steps.
\<close>

datatype ImportItem = HISTORY | FAVORITES | COOKIES | PASSWORDS

fun item_bit :: "ImportItem \<Rightarrow> 16 word" where
  "item_bit HISTORY = 1"
| "item_bit FAVORITES = 2"
| "item_bit COOKIES = 4"
| "item_bit PASSWORDS = 8"

datatype VisitSource = VISIT_SOURCE_CHROME_IMPORTED

text \<open>The calls the importer makes on its \<^verbatim>\<open>ImporterBridge\<close>.\<close>

datatype bridge_call =
    NotifyStarted
  | NotifyItemStarted ImportItem
  | NotifyItemEnded ImportItem
  | NotifyEnded
  | SetHistoryItems "ImporterURLRow list" VisitSource
  | AddBookmarks "ImportedBookmarkEntry list" string
  | SetFavicons "FaviconUsageData list"
  | SetCookies "ImportedCookieEntry list"
  | SetPasswordForm PasswordForm

subsection \<open>The source profile\<close>

text \<open>
  A database file of the profile: absent (\<^verbatim>\<open>base::PathExists\<close> is false), present
  but \<^verbatim>\<open>db.Open\<close> fails, or open with its tables. A table is the list of its rows in
  the order in which \<^verbatim>\<open>s.Step()\<close> yields them; a column holds the value the accessor
  of \<^verbatim>\<open>sql::Statement\<close> returns for it (text, a 64-bit integer, or the bytes of a
  blob). SQL \<^verbatim>\<open>NULL\<close> is not modelled.
\<close>

datatype 'a db_file = NoFile | OpenFails | Db 'a

record urls_row =
  urls_url :: string
  urls_title :: string
  urls_last_visit_time :: int64_t
  urls_typed_count :: int64_t
  urls_visit_count :: int64_t
  urls_hidden :: int64_t

record icon_mapping_row =
  icon_id :: int64_t
  page_url :: string

record favicons_row =
  favicons_id :: int64_t
  favicons_url :: string

record favicons_db =
  icon_mapping_table :: "icon_mapping_row list"
  favicons_table :: "favicons_row list"

record cookies_row =
  host_key :: string
  cookies_name :: string
  cookies_value :: string
  cookies_path :: string
  expires_utc :: int64_t
  cookies_secure :: int64_t
  cookies_httponly :: int64_t
  encrypted_value :: string

text \<open>
  \<^verbatim>\<open>password_manager::LoginDatabase\<close> over the profile's \<^verbatim>\<open>Login Data\<close>: whether
  \<^verbatim>\<open>Init()\<close> succeeds, and for each retrieval call the flag it returns with the forms
  it leaves in the vector.
\<close>

record LoginDatabase =
  Init :: bool
  GetAutofillableLogins :: "bool \<times> PasswordForm list"
  GetBlacklistLogins :: "bool \<times> PasswordForm list"

text \<open>
  The files under \<^verbatim>\<open>source_path_\<close>. \<open>Bookmarks\<close> is the content of the file of
  that name, \<open>None\<close> when \<^verbatim>\<open>base::ReadFileToString\<close> cannot read it.
\<close>

record profile =
  History :: "urls_row list db_file"
  Bookmarks :: "string option"
  Favicons :: "favicons_db db_file"
  Cookies :: "cookies_row list db_file"
  Login_Data :: LoginDatabase

subsection \<open>The importer's state: bridge calls and cancellation\<close>

text \<open>
  \<open>calls\<close> are the calls made on the bridge so far, oldest first. The cancellation flag
  belongs to the host and may change at any time; the importer only reads it, through
  \<^verbatim>\<open>cancelled()\<close>. The model numbers these reads: \<open>flag k\<close> is what read number \<open>k\<close>
  of the run returns, and \<open>polls\<close> counts the reads made so far. The C++ operator
  \<^verbatim>\<open>&&\<close> does not evaluate \<^verbatim>\<open>cancelled()\<close> when its left operand is false, and
  neither does the model.
\<close>

record importer =
  polls :: nat
  calls :: "bridge_call list"

definition cancelled :: "(nat \<Rightarrow> bool) \<Rightarrow> importer \<Rightarrow> bool" where
  "cancelled flag s = flag (polls s)"

definition polled :: "importer \<Rightarrow> importer" where
  "polled s = s\<lparr>polls := Suc (polls s)\<rparr>"

definition bridge :: "bridge_call \<Rightarrow> importer \<Rightarrow> importer" where
  "bridge c s = s\<lparr>calls := calls s @ [c]\<rparr>"

text \<open>A flag that is never cleared once it is set, as the host's is.\<close>

definition stays_set :: "(nat \<Rightarrow> bool) \<Rightarrow> bool" where
  "stays_set flag = (\<forall>i j. flag i \<and> i \<le> j \<longrightarrow> flag j)"

subsection \<open>\<^verbatim>\<open>ImportHistory\<close>\<close>

text \<open>
  \<^verbatim>\<open>ColumnInt\<close> keeps the low 32 bits of the stored integer; \<^verbatim>\<open>ColumnBool\<close> is
  \<^verbatim>\<open>!!ColumnInt\<close>.
\<close>

definition ColumnInt :: "int64_t \<Rightarrow> 32 word" where
  "ColumnInt v = ucast v"

definition ColumnBool :: "int64_t \<Rightarrow> bool" where
  "ColumnBool v = (ColumnInt v \<noteq> 0)"

text \<open>The body of the loop of \<^verbatim>\<open>ImportHistory\<close>: one result row to one record.\<close>

definition history_row :: "externals \<Rightarrow> urls_row \<Rightarrow> ImporterURLRow" where
  "history_row ext r =
     \<lparr>history_url = GURL_of ext (urls_url r),
      title = urls_title r,
      last_visit = FromDoubleT (chromeTimeToDouble (urls_last_visit_time r)),
      hidden = False,
      typed_count = ColumnInt (urls_typed_count r),
      visit_count = ColumnInt (urls_visit_count r)\<rparr>"

text \<open>
  \<^verbatim>\<open>while (s.Step() && !cancelled()) { ...; rows.push_back(row); }\<close> over the result
  rows that are left.
\<close>

fun ImportHistory_loop ::
    "externals \<Rightarrow> (nat \<Rightarrow> bool) \<Rightarrow> urls_row list \<Rightarrow> ImporterURLRow list \<Rightarrow> importer
      \<Rightarrow> ImporterURLRow list \<times> importer" where
  "ImportHistory_loop ext flag [] rows s = (rows, s)"
| "ImportHistory_loop ext flag (r # rs) rows s =
     (if cancelled flag s then (rows, polled s)
      else ImportHistory_loop ext flag rs (rows @ [history_row ext r]) (polled s))"

text \<open>
  The query is
  \<^verbatim>\<open>SELECT url, title, last_visit_time, typed_count, visit_count FROM urls WHERE hidden = 0\<close>.
\<close>

definition ImportHistory :: "externals \<Rightarrow> (nat \<Rightarrow> bool) \<Rightarrow> profile \<Rightarrow> importer \<Rightarrow> importer" where
  "ImportHistory ext flag files s =
     (case History files of
        NoFile \<Rightarrow> s
      | OpenFails \<Rightarrow> s
      | Db table \<Rightarrow>
          (case ImportHistory_loop ext flag (filter (\<lambda>r. urls_hidden r = 0) table) [] s of
             (rows, s1) \<Rightarrow>
               if rows \<noteq> [] then
                 (if \<not> cancelled flag s1
                  then bridge (SetHistoryItems rows VISIT_SOURCE_CHROME_IMPORTED) (polled s1)
                  else polled s1)
               else s1))"

subsection \<open>\<^verbatim>\<open>RecursiveReadBookmarksFolder\<close>\<close>

text \<open>
  The function appends to the vector \<open>bookmarks\<close> it is given and returns it;
  \<open>read_children\<close> is its \<^verbatim>\<open>for\<close> loop over the children that are left. An exception
  of \<open>stoll\<close> leaves both (\<open>Inl\<close>).
\<close>

function RecursiveReadBookmarksFolder ::
    "externals \<Rightarrow> DictionaryValue \<Rightarrow> string list \<Rightarrow> bool \<Rightarrow> ImportedBookmarkEntry list
      \<Rightarrow> cpp_exception + ImportedBookmarkEntry list"
  and read_children ::
    "externals \<Rightarrow> Value list \<Rightarrow> string list \<Rightarrow> bool \<Rightarrow> ImportedBookmarkEntry list
      \<Rightarrow> cpp_exception + ImportedBookmarkEntry list"
where
  "RecursiveReadBookmarksFolder ext folder parent_path is_in_toolbar bookmarks =
     (case GetList folder ''children'' of
        None \<Rightarrow> Inr bookmarks
      | Some children \<Rightarrow> read_children ext children parent_path is_in_toolbar bookmarks)"
| "read_children ext [] parent_path is_in_toolbar bookmarks = Inr bookmarks"
| "read_children ext (v # rest) parent_path is_in_toolbar bookmarks =
     (case GetAsDictionary v of
        None \<Rightarrow> read_children ext rest parent_path is_in_toolbar bookmarks
      | Some dict \<Rightarrow>
          (let date_added = GetString dict ''date_added'' [];
               name = GetString dict ''name'' [];
               type = GetString dict ''type'' [];
               url = GetString dict ''url'' []
           in if type = ''folder'' then
                (case stoll date_added of
                   Inl e \<Rightarrow> Inl e
                 | Inr t \<Rightarrow>
                     (case RecursiveReadBookmarksFolder ext dict (parent_path @ [name]) False
                             (bookmarks @ [\<lparr>in_toolbar = is_in_toolbar, is_folder = True,
                                 bookmark_url = GURL_default, path = parent_path,
                                 bookmark_title = name,
                                 creation_time = FromDoubleT (chromeTimeToDouble t)\<rparr>]) of
                        Inl e \<Rightarrow> Inl e
                      | Inr bookmarks' \<Rightarrow>
                          read_children ext rest parent_path is_in_toolbar bookmarks'))
              else if type = ''url'' then
                (case stoll date_added of
                   Inl e \<Rightarrow> Inl e
                 | Inr t \<Rightarrow>
                     read_children ext rest parent_path is_in_toolbar
                       (bookmarks @ [\<lparr>in_toolbar = is_in_toolbar, is_folder = False,
                           bookmark_url = GURL_of ext url, path = parent_path,
                           bookmark_title = name,
                           creation_time = FromDoubleT (chromeTimeToDouble t)\<rparr>]))
              else read_children ext rest parent_path is_in_toolbar bookmarks))"
  by pat_completeness auto
termination
proof (relation "measure (\<lambda>x. case x of
          Inl (ext, folder, pp, tb, bms) \<Rightarrow> 2 * size (DICTIONARY folder) + 1
        | Inr (ext, children, pp, tb, bms) \<Rightarrow> 2 * size (LIST children))")
  show "wf (measure (\<lambda>x. case x of
          Inl (ext, folder, pp, tb, bms) \<Rightarrow> 2 * size (DICTIONARY folder) + 1
        | Inr (ext, children, pp, tb, bms) \<Rightarrow> 2 * size (LIST children)))"
    by simp
next
  fix ext :: externals and folder :: DictionaryValue and parent_path :: "string list"
    and is_in_toolbar :: bool and bookmarks :: "ImportedBookmarkEntry list" and children
  assume "GetList folder ''children'' = Some children"
  then have "(''children'', LIST children) \<in> set folder"
    by (auto simp: GetList_def split: option.splits Value.splits dest: map_of_SomeD)
  then have "size (LIST children) < size (DICTIONARY folder)"
    by (induction folder) auto
  then show "(Inr (ext, children, parent_path, is_in_toolbar, bookmarks),
              Inl (ext, folder, parent_path, is_in_toolbar, bookmarks))
       \<in> measure (\<lambda>x. case x of
          Inl (ext, folder, pp, tb, bms) \<Rightarrow> 2 * size (DICTIONARY folder) + 1
        | Inr (ext, children, pp, tb, bms) \<Rightarrow> 2 * size (LIST children))"
    by simp
qed (auto elim!: GetAsDictionary.elims)

subsection \<open>Favicons: \<^verbatim>\<open>ImportFaviconURLs\<close> and \<^verbatim>\<open>LoadFaviconData\<close>\<close>

text \<open>
  Modelled from the spec: \<^verbatim>\<open>FaviconMap\<close> is declared in chrome\_importer.h, which is
  not among the sources. The spec has it map an icon id to the set of page URLs that
  reference the icon, and be iterated in the order in which the ids were first inserted.
  \<open>favicon_map_insert\<close> is \<^verbatim>\<open>(*favicon_map)[icon_id].insert(url)\<close> on it.
\<close>

type_synonym FaviconMap = "(int64_t \<times> GURL set) list"

fun favicon_map_insert :: "int64_t \<Rightarrow> GURL \<Rightarrow> FaviconMap \<Rightarrow> FaviconMap" where
  "favicon_map_insert k u [] = [(k, {u})]"
| "favicon_map_insert k u ((k', us) # m) =
     (if k = k' then (k', insert u us) # m else (k', us) # favicon_map_insert k u m)"

text \<open>
  \<^verbatim>\<open>SELECT icon_id, page_url FROM icon_mapping;\<close> and the loop
  \<^verbatim>\<open>while (s.Step() && !cancelled())\<close> over its rows.
\<close>

fun ImportFaviconURLs ::
    "externals \<Rightarrow> (nat \<Rightarrow> bool) \<Rightarrow> icon_mapping_row list \<Rightarrow> FaviconMap \<Rightarrow> importer
      \<Rightarrow> FaviconMap \<times> importer" where
  "ImportFaviconURLs ext flag [] favicon_map s = (favicon_map, s)"
| "ImportFaviconURLs ext flag (r # rs) favicon_map s =
     (if cancelled flag s then (favicon_map, polled s)
      else ImportFaviconURLs ext flag rs
             (favicon_map_insert (icon_id r) (GURL_of ext (page_url r)) favicon_map)
             (polled s))"

text \<open>
  \<^verbatim>\<open>SELECT url FROM favicons WHERE id = ?;\<close> is stepped once for each icon of the map:
  the first row with that id, if there is one. \<^verbatim>\<open>ColumnBlobAsVector(0, &data)\<close> reads
  the bytes of the same column the URL was read from.
\<close>

fun LoadFaviconData ::
    "externals \<Rightarrow> favicons_row list \<Rightarrow> FaviconMap \<Rightarrow> FaviconUsageData list
      \<Rightarrow> FaviconUsageData list" where
  "LoadFaviconData ext table [] favicons = favicons"
| "LoadFaviconData ext table ((icon, page_urls) # rest) favicons =
     (case find (\<lambda>r. favicons_id r = icon) table of
        None \<Rightarrow> LoadFaviconData ext table rest favicons
      | Some r \<Rightarrow>
          (let u = GURL_of ext (favicons_url r) in
           if is_valid u then
             (if SchemeIs u kDataScheme then
                (let data = favicons_url r in
                 if data = [] then LoadFaviconData ext table rest favicons
                 else
                   (case ReencodeFavicon ext data of
                      None \<Rightarrow> LoadFaviconData ext table rest favicons
                    | Some png \<Rightarrow>
                        LoadFaviconData ext table rest
                          (favicons @ [\<lparr>favicon_url = GURL_default, png_data = png,
                                         urls = page_urls\<rparr>])))
              else
                LoadFaviconData ext table rest
                  (favicons @ [\<lparr>favicon_url = u, png_data = [], urls = page_urls\<rparr>]))
           else LoadFaviconData ext table rest favicons))"

subsection \<open>\<^verbatim>\<open>ImportBookmarks\<close>\<close>

text \<open>Lines 138 to 161: the two roots are read into one vector, the bookmark bar first.\<close>

definition ImportBookmarks_roots ::
    "externals \<Rightarrow> DictionaryValue \<Rightarrow> cpp_exception + ImportedBookmarkEntry list" where
  "ImportBookmarks_roots ext bookmark_dict =
     (case GetDictionary bookmark_dict ''roots'' of
        None \<Rightarrow> Inr []
      | Some roots \<Rightarrow>
          (case (case GetDictionary roots ''bookmark_bar'' of
                   None \<Rightarrow> Inr []
                 | Some bookmark_bar \<Rightarrow>
                     RecursiveReadBookmarksFolder ext bookmark_bar
                       [GetString bookmark_bar ''name'' []] True []) of
             Inl e \<Rightarrow> Inl e
           | Inr bookmarks \<Rightarrow>
               (case GetDictionary roots ''other'' of
                  None \<Rightarrow> Inr bookmarks
                | Some other \<Rightarrow>
                    RecursiveReadBookmarksFolder ext other
                      [GetString other ''name'' []] False bookmarks)))"

text \<open>Lines 169 to 187: the favicon phase.\<close>

definition ImportBookmarks_favicons ::
    "externals \<Rightarrow> (nat \<Rightarrow> bool) \<Rightarrow> profile \<Rightarrow> importer \<Rightarrow> importer" where
  "ImportBookmarks_favicons ext flag files s =
     (case Favicons files of
        NoFile \<Rightarrow> s
      | OpenFails \<Rightarrow> s
      | Db db \<Rightarrow>
          (case ImportFaviconURLs ext flag (icon_mapping_table db) [] s of
             (favicon_map, s1) \<Rightarrow>
               if favicon_map \<noteq> [] then
                 (if \<not> cancelled flag s1
                  then bridge (SetFavicons (LoadFaviconData ext (favicons_table db) favicon_map []))
                         (polled s1)
                  else polled s1)
               else s1))"

text \<open>
  How a call ends: it returns, or an exception leaves it. Either way the state holds the
  bridge calls made up to that point.
\<close>

datatype outcome = Returned importer | Terminated cpp_exception importer

definition ImportBookmarks :: "externals \<Rightarrow> (nat \<Rightarrow> bool) \<Rightarrow> profile \<Rightarrow> importer \<Rightarrow> outcome" where
  "ImportBookmarks ext flag files s =
     (let bookmarks_content = (case Bookmarks files of None \<Rightarrow> [] | Some c \<Rightarrow> c) in
      case JSONReader_Read ext bookmarks_content of
        None \<Rightarrow> Returned s
      | Some bookmarks_json \<Rightarrow>
          (case GetAsDictionary bookmarks_json of
             None \<Rightarrow> Returned s
           | Some bookmark_dict \<Rightarrow>
               (case ImportBookmarks_roots ext bookmark_dict of
                  Inl e \<Rightarrow> Terminated e s
                | Inr bookmarks \<Rightarrow>
                    Returned (ImportBookmarks_favicons ext flag files
                      (if bookmarks \<noteq> [] then
                         (if \<not> cancelled flag s
                          then bridge (AddBookmarks bookmarks ''Imported from Chrome'') (polled s)
                          else polled s)
                       else s)))))"

subsection \<open>\<^verbatim>\<open>ImportCookies\<close>\<close>

definition cookie_entry :: "cookies_row \<Rightarrow> ImportedCookieEntry" where
  "cookie_entry r =
     \<lparr>domain = host_key r,
      cookie_name = cookies_name r,
      cookie_value = cookies_value r,
      host = ''*'' @ host_key r,
      cookie_path = cookies_path r,
      expiry_date = FromDoubleT (chromeTimeToDouble (expires_utc r)),
      secure = ColumnBool (cookies_secure r),
      httponly = ColumnBool (cookies_httponly r)\<rparr>"

fun ImportCookies_loop ::
    "(nat \<Rightarrow> bool) \<Rightarrow> cookies_row list \<Rightarrow> ImportedCookieEntry list \<Rightarrow> importer
      \<Rightarrow> ImportedCookieEntry list \<times> importer" where
  "ImportCookies_loop flag [] cookies s = (cookies, s)"
| "ImportCookies_loop flag (r # rs) cookies s =
     (if cancelled flag s then (cookies, polled s)
      else ImportCookies_loop flag rs (cookies @ [cookie_entry r]) (polled s))"

text \<open>
  The query is \<^verbatim>\<open>SELECT host_key, name, value, path, expires_utc, secure, httponly,
  encrypted_value FROM cookies WHERE length(encrypted_value) = 0\<close>.
\<close>

definition ImportCookies :: "(nat \<Rightarrow> bool) \<Rightarrow> profile \<Rightarrow> importer \<Rightarrow> importer" where
  "ImportCookies flag files s =
     (case Cookies files of
        NoFile \<Rightarrow> s
      | OpenFails \<Rightarrow> s
      | Db table \<Rightarrow>
          (case ImportCookies_loop flag
                  (filter (\<lambda>r. length (encrypted_value r) = 0) table) [] s of
             (cookies, s1) \<Rightarrow>
               if cookies \<noteq> [] then
                 (if \<not> cancelled flag s1 then bridge (SetCookies cookies) (polled s1)
                  else polled s1)
               else s1))"

subsection \<open>\<^verbatim>\<open>ImportPasswords\<close>\<close>

text \<open>
  \<^verbatim>\<open>for (int i = 0; i < forms.size(); ++i) bridge_->SetPasswordForm(*forms[i].get());\<close>
\<close>

fun SetPasswordForms :: "PasswordForm list \<Rightarrow> importer \<Rightarrow> importer" where
  "SetPasswordForms [] s = s"
| "SetPasswordForms (form # forms) s = SetPasswordForms forms (bridge (SetPasswordForm form) s)"

text \<open>
  The build without \<^verbatim>\<open>USE_X11\<close> (lines 285 to 308): the login database of the profile
  is read directly.
\<close>

definition ImportPasswords :: "profile \<Rightarrow> importer \<Rightarrow> importer" where
  "ImportPasswords files s =
     (let database = Login_Data files in
      if \<not> Init database then s
      else
        (let (success, forms) = GetAutofillableLogins database;
             s1 = (if success then SetPasswordForms forms s else s);
             (success, blacklist) = GetBlacklistLogins database
         in if success then SetPasswordForms blacklist s1 else s1))"

subsection \<open>\<^verbatim>\<open>StartImport\<close>\<close>

text \<open>\<^verbatim>\<open>items & importer::HISTORY\<close> and its like, as a condition.\<close>

definition requested :: "16 word \<Rightarrow> ImportItem \<Rightarrow> bool" where
  "requested items item = (items AND item_bit item \<noteq> 0)"

text \<open>The four \<^verbatim>\<open>if\<close> blocks of \<^verbatim>\<open>StartImport\<close>, in the order of the source.\<close>

definition StartImport_history ::
    "externals \<Rightarrow> (nat \<Rightarrow> bool) \<Rightarrow> profile \<Rightarrow> 16 word \<Rightarrow> importer \<Rightarrow> importer" where
  "StartImport_history ext flag files items s =
     (if requested items HISTORY then
        (if \<not> cancelled flag s
         then bridge (NotifyItemEnded HISTORY)
                (ImportHistory ext flag files (bridge (NotifyItemStarted HISTORY) (polled s)))
         else polled s)
      else s)"

definition StartImport_favorites ::
    "externals \<Rightarrow> (nat \<Rightarrow> bool) \<Rightarrow> profile \<Rightarrow> 16 word \<Rightarrow> importer \<Rightarrow> outcome" where
  "StartImport_favorites ext flag files items s =
     (if requested items FAVORITES then
        (if \<not> cancelled flag s
         then (case ImportBookmarks ext flag files
                      (bridge (NotifyItemStarted FAVORITES) (polled s)) of
                 Terminated e s' \<Rightarrow> Terminated e s'
               | Returned s' \<Rightarrow> Returned (bridge (NotifyItemEnded FAVORITES) s'))
         else Returned (polled s))
      else Returned s)"

definition StartImport_cookies ::
    "(nat \<Rightarrow> bool) \<Rightarrow> profile \<Rightarrow> 16 word \<Rightarrow> importer \<Rightarrow> importer" where
  "StartImport_cookies flag files items s =
     (if requested items COOKIES then
        (if \<not> cancelled flag s
         then bridge (NotifyItemEnded COOKIES)
                (ImportCookies flag files (bridge (NotifyItemStarted COOKIES) (polled s)))
         else polled s)
      else s)"

definition StartImport_passwords ::
    "(nat \<Rightarrow> bool) \<Rightarrow> profile \<Rightarrow> 16 word \<Rightarrow> importer \<Rightarrow> importer" where
  "StartImport_passwords flag files items s =
     (if requested items PASSWORDS then
        (if \<not> cancelled flag s
         then bridge (NotifyItemEnded PASSWORDS)
                (ImportPasswords files (bridge (NotifyItemStarted PASSWORDS) (polled s)))
         else polled s)
      else s)"

definition StartImport ::
    "externals \<Rightarrow> (nat \<Rightarrow> bool) \<Rightarrow> profile \<Rightarrow> 16 word \<Rightarrow> importer \<Rightarrow> outcome" where
  "StartImport ext flag files items s =
     (case StartImport_favorites ext flag files items
             (StartImport_history ext flag files items (bridge NotifyStarted s)) of
        Terminated e s' \<Rightarrow> Terminated e s'
      | Returned s' \<Rightarrow>
          Returned (bridge NotifyEnded
            (StartImport_passwords flag files items
              (StartImport_cookies flag files items s'))))"

text \<open>A fresh importer: nothing read, nothing called.\<close>

definition fresh :: importer where
  "fresh = \<lparr>polls = 0, calls = []\<rparr>"

subsection \<open>Notions used in the statements\<close>

text \<open>
  What the entries \<open>new\<close> that a walk with parent path \<open>pp\<close> and toolbar flag \<open>tb\<close>
  appends have in common: their paths extend \<open>pp\<close>, and an entry is marked as in the
  toolbar exactly when the walk was started with the flag and the entry lies directly
  under \<open>pp\<close>.
\<close>

definition walk_inv :: "string list \<Rightarrow> bool \<Rightarrow> ImportedBookmarkEntry list \<Rightarrow> bool" where
  "walk_inv pp tb new =
     (\<forall>e \<in> set new. (\<exists>q. path e = pp @ q) \<and> (in_toolbar e \<longleftrightarrow> tb \<and> path e = pp))"

text \<open>
  A child the loop of \<open>RecursiveReadBookmarksFolder\<close> passes over: not a dictionary, or a
  dictionary whose \<^verbatim>\<open>type\<close> is neither \<^verbatim>\<open>folder\<close> nor \<^verbatim>\<open>url\<close> (a missing or
  non-string \<^verbatim>\<open>type\<close> reads as the empty string).
\<close>

definition untyped_node :: "Value \<Rightarrow> bool" where
  "untyped_node v =
     (case GetAsDictionary v of
        None \<Rightarrow> True
      | Some dict \<Rightarrow>
          GetString dict ''type'' [] \<noteq> ''folder'' \<and> GetString dict ''type'' [] \<noteq> ''url'')"

text \<open>
  A row of \<^verbatim>\<open>favicons\<close> that \<open>LoadFaviconData\<close> passes over: its URL is invalid, or
  it is a data URL whose bytes are empty or are refused by the favicon codec.
\<close>

definition omitted_icon :: "externals \<Rightarrow> favicons_row \<Rightarrow> bool" where
  "omitted_icon ext r =
     (let u = GURL_of ext (favicons_url r) in
      \<not> is_valid u
      \<or> (SchemeIs u kDataScheme
          \<and> (favicons_url r = [] \<or> ReencodeFavicon ext (favicons_url r) = None)))"

text \<open>
  The signals of the session, as opposed to the calls that deliver data; and the calls of
  one step: none when the step is skipped, else "item started", data calls, "item ended".
\<close>

fun is_notification :: "bridge_call \<Rightarrow> bool" where
  "is_notification NotifyStarted = True"
| "is_notification (NotifyItemStarted item) = True"
| "is_notification (NotifyItemEnded item) = True"
| "is_notification NotifyEnded = True"
| "is_notification _ = False"

definition step_calls :: "ImportItem \<Rightarrow> bridge_call list \<Rightarrow> bool" where
  "step_calls item xs =
     (xs = [] \<or> (\<exists>d. xs = NotifyItemStarted item # d @ [NotifyItemEnded item]
                     \<and> (\<forall>c \<in> set d. \<not> is_notification c)))"

subsection \<open>Concrete inputs\<close>

text \<open>
  Flags: \<open>set_from n\<close> is clear for the first \<open>n\<close> reads of a run and set from then on
  (the host cancels between read \<open>n - 1\<close> and read \<open>n\<close>); \<open>never_set\<close> is a run that is
  not cancelled.
\<close>

definition set_from :: "nat \<Rightarrow> nat \<Rightarrow> bool" where
  "set_from n k = (n \<le> k)"

definition never_set :: "nat \<Rightarrow> bool" where
  "never_set k = False"

text \<open>
  Stand-ins for the collaborators, for evaluating the importer on concrete profiles: a URL
  is valid when it has a colon and its scheme is what precedes the colon; the JSON reader
  knows three file contents (a bookmark bar with one sub-folder that holds one leaf, the
  bookmark bar of \<open>undated_bookmarks\<close>, and an empty JSON list) and rejects every other
  content; the favicon codec accepts one image.
\<close>

definition stub_GURL :: "string \<Rightarrow> GURL" where
  "stub_GURL s = GURL s (CHR '':'' \<in> set s) (takeWhile (\<lambda>c. c \<noteq> CHR '':'') s)"

definition example_leaf :: DictionaryValue where
  "example_leaf =
     [(''date_added'', STRING ''12879119098092474''), (''name'', STRING ''Example''),
      (''type'', STRING ''url''), (''url'', STRING ''http://example.com/'')]"

definition example_subfolder :: DictionaryValue where
  "example_subfolder =
     [(''children'', LIST [DICTIONARY example_leaf]),
      (''date_added'', STRING ''13000000000000000''),
      (''name'', STRING ''News''), (''type'', STRING ''folder'')]"

definition example_bookmark_bar :: DictionaryValue where
  "example_bookmark_bar =
     [(''children'', LIST [DICTIONARY example_subfolder]),
      (''name'', STRING ''Bookmarks bar''), (''type'', STRING ''folder'')]"

definition example_bookmarks :: DictionaryValue where
  "example_bookmarks =
     [(''roots'', DICTIONARY [(''bookmark_bar'', DICTIONARY example_bookmark_bar)])]"

text \<open>A leaf whose \<^verbatim>\<open>date_added\<close> is not a number, followed by a well-formed leaf.\<close>

definition undated_leaf :: DictionaryValue where
  "undated_leaf =
     [(''date_added'', STRING ''yesterday''), (''name'', STRING ''Undated''),
      (''type'', STRING ''url''), (''url'', STRING ''http://undated.example/'')]"

definition undated_bookmark_bar :: DictionaryValue where
  "undated_bookmark_bar =
     [(''children'', LIST [DICTIONARY undated_leaf, DICTIONARY example_leaf]),
      (''name'', STRING ''Bookmarks bar''), (''type'', STRING ''folder'')]"

definition undated_bookmarks :: DictionaryValue where
  "undated_bookmarks =
     [(''roots'', DICTIONARY [(''bookmark_bar'', DICTIONARY undated_bookmark_bar)])]"

text \<open>
  A second root: \<^verbatim>\<open>other\<close> holds a leaf and the sub-folder of the bookmark bar
  once more; \<open>example_two_roots\<close> has both roots.
\<close>

definition other_leaf :: DictionaryValue where
  "other_leaf =
     [(''date_added'', STRING ''13000000000000000''), (''name'', STRING ''Later''),
      (''type'', STRING ''url''), (''url'', STRING ''http://later.example/'')]"

definition example_other :: DictionaryValue where
  "example_other =
     [(''children'', LIST [DICTIONARY other_leaf, DICTIONARY example_subfolder]),
      (''name'', STRING ''Other bookmarks''), (''type'', STRING ''folder'')]"

definition example_two_roots :: DictionaryValue where
  "example_two_roots =
     [(''roots'', DICTIONARY [(''bookmark_bar'', DICTIONARY example_bookmark_bar),
                              (''other'', DICTIONARY example_other)])]"

text \<open>The entries of the two roots of \<open>example_two_roots\<close>, in the order of the walk.\<close>

definition example_bar_entries :: "ImportedBookmarkEntry list" where
  "example_bar_entries =
     [\<lparr>in_toolbar = True, is_folder = True, bookmark_url = GURL_default,
       path = [''Bookmarks bar''], bookmark_title = ''News'',
       creation_time = FromDoubleT 1355526400\<rparr>,
      \<lparr>in_toolbar = False, is_folder = False,
       bookmark_url = GURL ''http://example.com/'' True ''http'',
       path = [''Bookmarks bar'', ''News''], bookmark_title = ''Example'',
       creation_time = FromDoubleT 1234645498\<rparr>]"

definition example_other_entries :: "ImportedBookmarkEntry list" where
  "example_other_entries =
     [\<lparr>in_toolbar = False, is_folder = False,
       bookmark_url = GURL ''http://later.example/'' True ''http'',
       path = [''Other bookmarks''], bookmark_title = ''Later'',
       creation_time = FromDoubleT 1355526400\<rparr>,
      \<lparr>in_toolbar = False, is_folder = True, bookmark_url = GURL_default,
       path = [''Other bookmarks''], bookmark_title = ''News'',
       creation_time = FromDoubleT 1355526400\<rparr>,
      \<lparr>in_toolbar = False, is_folder = False,
       bookmark_url = GURL ''http://example.com/'' True ''http'',
       path = [''Other bookmarks'', ''News''], bookmark_title = ''Example'',
       creation_time = FromDoubleT 1234645498\<rparr>]"

definition stub_JSONReader :: "string \<Rightarrow> Value option" where
  "stub_JSONReader content =
     (if content = ''example'' then Some (DICTIONARY example_bookmarks)
      else if content = ''undated'' then Some (DICTIONARY undated_bookmarks)
      else if content = ''[]'' then Some (LIST [])
      else None)"

definition stub_ReencodeFavicon :: "string \<Rightarrow> string option" where
  "stub_ReencodeFavicon data = (if data = ''data:image/png,ok'' then Some ''png'' else None)"

definition stubs :: externals where
  "stubs = \<lparr>GURL_of = stub_GURL, JSONReader_Read = stub_JSONReader,
            ReencodeFavicon = stub_ReencodeFavicon\<rparr>"

text \<open>
  A profile: three pages in the history, the second hidden; three cookies, the second
  with an encrypted value; the bookmarks of \<open>example_bookmarks\<close>.
\<close>

definition example_urls :: "urls_row list" where
  "example_urls =
     [\<lparr>urls_url = ''http://example.com/'', urls_title = ''Example'',
       urls_last_visit_time = 12879119098092474, urls_typed_count = 1,
       urls_visit_count = 3, urls_hidden = 0\<rparr>,
      \<lparr>urls_url = ''http://hidden.example/'', urls_title = ''Hidden'',
       urls_last_visit_time = 13000000000000000, urls_typed_count = 0,
       urls_visit_count = 1, urls_hidden = 1\<rparr>,
      \<lparr>urls_url = ''http://example.com/news'', urls_title = ''News'',
       urls_last_visit_time = 13000000000000000, urls_typed_count = 0,
       urls_visit_count = 2, urls_hidden = 0\<rparr>]"

definition example_cookies :: "cookies_row list" where
  "example_cookies =
     [\<lparr>host_key = ''.example.com'', cookies_name = ''sid'', cookies_value = ''42'',
       cookies_path = ''/'', expires_utc = 13000000000000000, cookies_secure = 1,
       cookies_httponly = 0, encrypted_value = []\<rparr>,
      \<lparr>host_key = ''.secret.example'', cookies_name = ''token'', cookies_value = [],
       cookies_path = ''/'', expires_utc = 13000000000000000, cookies_secure = 1,
       cookies_httponly = 1, encrypted_value = ''v10x''\<rparr>,
      \<lparr>host_key = ''news.example.com'', cookies_name = ''lang'', cookies_value = ''en'',
       cookies_path = ''/'', expires_utc = 12879119098092474, cookies_secure = 0,
       cookies_httponly = 0, encrypted_value = []\<rparr>]"

definition no_logins :: LoginDatabase where
  "no_logins =
     \<lparr>Init = False, GetAutofillableLogins = (False, []), GetBlacklistLogins = (False, [])\<rparr>"

definition example_profile :: profile where
  "example_profile = \<lparr>History = Db example_urls, Bookmarks = Some ''example'', Favicons = NoFile,
     Cookies = Db example_cookies, Login_Data = no_logins\<rparr>"

text \<open>
  A favicons database: icon 7 serves two pages (one of them mapped twice) and is stored as
  a remote URL, icon 8 is a data URL the codec refuses, icon 9 one it accepts.
\<close>

definition example_favicons :: favicons_db where
  "example_favicons =
     \<lparr>icon_mapping_table =
        [\<lparr>icon_id = 7, page_url = ''http://example.com/''\<rparr>,
         \<lparr>icon_id = 8, page_url = ''http://broken.example/''\<rparr>,
         \<lparr>icon_id = 7, page_url = ''http://example.com/news''\<rparr>,
         \<lparr>icon_id = 9, page_url = ''http://inline.example/''\<rparr>,
         \<lparr>icon_id = 7, page_url = ''http://example.com/''\<rparr>],
      favicons_table =
        [\<lparr>favicons_id = 7, favicons_url = ''http://example.com/favicon.ico''\<rparr>,
         \<lparr>favicons_id = 8, favicons_url = ''data:image/png,broken''\<rparr>,
         \<lparr>favicons_id = 9, favicons_url = ''data:image/png,ok''\<rparr>]\<rparr>"

text \<open>A profile with that database and no Bookmarks file.\<close>

definition favicons_only :: profile where
  "favicons_only = \<lparr>History = NoFile, Bookmarks = None, Favicons = Db example_favicons,
     Cookies = NoFile, Login_Data = no_logins\<rparr>"

text \<open>A login database with two autofillable credentials and one blacklisted site.\<close>

definition example_logins :: LoginDatabase where
  "example_logins =
     \<lparr>Init = True,
      GetAutofillableLogins =
        (True, [PasswordForm ''http://example.com/'' ''alice'' ''secret'' False,
                PasswordForm ''http://example.com/news'' ''alice'' ''hunter2'' False]),
      GetBlacklistLogins = (True, [PasswordForm ''http://bank.example/'' [] [] True])\<rparr>"

text \<open>A profile whose only store is a Bookmarks file with the content \<^verbatim>\<open>undated\<close>.\<close>

definition undated_profile :: profile where
  "undated_profile = \<lparr>History = NoFile, Bookmarks = Some ''undated'', Favicons = NoFile,
     Cookies = NoFile, Login_Data = no_logins\<rparr>"

section \<open>Properties\<close>

subsection \<open>TimeCodec\<close>

lemma sint_word_of_int_64:
  "- (2 ^ 63) \<le> i \<Longrightarrow> i < 2 ^ 63 \<Longrightarrow> sint (word_of_int i :: int64_t) = i"
  by (simp add: sint_sbintrunc' signed_take_bit_int_eq_self)

lemma abs_sdiv_le: "\<bar>(a::int) sdiv b\<bar> \<le> \<bar>a\<bar>"
  using sdiv_int_range [of a b] by auto


lemma sint_int64_div:
  assumes "- (2 ^ 63) < sint a"
  shows "sint (int64_div a b) = sint a sdiv sint b"
proof -
  have "\<bar>sint a sdiv sint b\<bar> \<le> \<bar>sint a\<bar>"
    by (rule abs_sdiv_le)
  moreover have "sint a < 2 ^ 63"
    using sint_lt [of a] by simp
  ultimately have "- (2 ^ 63) \<le> sint a sdiv sint b" and "sint a sdiv sint b < 2 ^ 63"
    using assms by linarith+
  then show ?thesis
    unfolding int64_div_def by (rule sint_word_of_int_64)
qed

lemma abs_sdiv_pos: "0 < b \<Longrightarrow> \<bar>(a::int) sdiv b\<bar> = \<bar>a\<bar> div b"
proof (cases "a = 0")
  case True
  then show ?thesis by simp
next
  case False
  assume "0 < b"
  moreover from this have "0 \<le> \<bar>a\<bar> div b"
    by (simp add: pos_imp_zdiv_nonneg_iff)
  ultimately show ?thesis
    using False by (simp add: signed_divide_int_def abs_mult abs_sgn_eq)
qed

lemma sdiv_neg_pos: "(a::int) < 0 \<Longrightarrow> 0 < b \<Longrightarrow> a sdiv b \<le> 0"
  by (simp add: signed_divide_int_def pos_imp_zdiv_nonneg_iff)

lemma sint_int64_div_pos:
  assumes "0 < sint b"
  shows "sint (int64_div a b) = sint a sdiv sint b"
proof -
  have r: "- (2 ^ 63) \<le> sint a" "sint a < 2 ^ 63"
    using sint_ge [of a] sint_lt [of a] by simp_all
  have q: "\<bar>sint a sdiv sint b\<bar> \<le> \<bar>sint a\<bar>"
    by (rule abs_sdiv_le)
  have "sint a sdiv sint b < 2 ^ 63"
  proof (cases "sint a < 0")
    case True
    then have "sint a sdiv sint b \<le> 0"
      using assms by (rule sdiv_neg_pos)
    then show ?thesis by simp
  next
    case False
    with q r show ?thesis by linarith
  qed
  moreover have "- (2 ^ 63) \<le> sint a sdiv sint b"
    using q r by linarith
  ultimately show ?thesis
    unfolding int64_div_def by (intro sint_word_of_int_64)
qed

lemma chromeTimeToDouble_exact_as_double: "\<bar>chromeTimeToDouble t\<bar> < 2 ^ 53"
proof -
  let ?w = "t * 10 - 0x19DB1DED53E8000"
  let ?q = "sint ?w sdiv 10000"
  have b: "- (2 ^ 63) \<le> sint ?w" "sint ?w < 2 ^ 63"
    using sint_ge [of ?w] sint_lt [of ?w] by simp_all
  have "\<bar>?q\<bar> = \<bar>sint ?w\<bar> div 10000"
    by (rule abs_sdiv_pos) simp
  moreover have "\<bar>sint ?w\<bar> div 10000 \<le> 2 ^ 63 div 10000"
    using b by (intro zdiv_mono1) linarith+
  ultimately have q1: "\<bar>?q\<bar> \<le> 922337203685477"
    by simp
  have "\<bar>?q sdiv 1000\<bar> = \<bar>?q\<bar> div 1000"
    by (rule abs_sdiv_pos) simp
  moreover have "\<bar>?q\<bar> div 1000 \<le> 922337203685477 div 1000"
    using q1 by (intro zdiv_mono1) linarith+
  ultimately have q2: "\<bar>?q sdiv 1000\<bar> \<le> 922337203685"
    by simp
  have "sint (int64_div ?w 10000) = ?q"
    using sint_int64_div_pos [of 10000 ?w] by simp
  then have "sint (int64_div (int64_div ?w 10000) 1000) = ?q sdiv 1000"
    using sint_int64_div_pos [of 1000 "int64_div ?w 10000"] by simp
  then show ?thesis
    unfolding chromeTimeToDouble_def using q2 by simp
qed













subsection \<open>Evaluation\<close>

lemmas stoll_eval = stoll_def isspace_def isdigit_def digit_value_def
lemmas time_eval = chromeTimeToDouble_def int64_div_def signed_divide_int_def
lemmas dict_eval = GetString_def GetList_def GetDictionary_def

lemma polled_simps [simp]: "polls (polled s) = Suc (polls s)" "calls (polled s) = calls s"
  by (simp_all add: polled_def)

lemma bridge_simps [simp]: "polls (bridge c s) = polls s" "calls (bridge c s) = calls s @ [c]"
  by (simp_all add: bridge_def)

subsection \<open>BookmarkTreeWalker\<close>

lemma walk_inv_Nil [simp]: "walk_inv pp tb []"
  by (simp add: walk_inv_def)

lemma walk_inv_append: "walk_inv pp tb (xs @ ys) \<longleftrightarrow> walk_inv pp tb xs \<and> walk_inv pp tb ys"
  by (auto simp: walk_inv_def)

lemma walk_inv_deeper: "walk_inv (pp @ [n]) False new \<Longrightarrow> walk_inv pp tb new"
  by (auto simp: walk_inv_def)

lemma walk_inv_entry:
  "walk_inv pp tb [\<lparr>in_toolbar = tb, is_folder = f, bookmark_url = u, path = pp,
      bookmark_title = n, creation_time = c\<rparr>]"
  by (simp add: walk_inv_def)

text \<open>
  Every walk that returns has appended to the vector it was given, and what it appended
  satisfies \<open>walk_inv\<close>. The induction follows the recursion of the walk and of its loop.
\<close>

lemma walk_entries:
  "RecursiveReadBookmarksFolder ext folder pp tb bms = Inr out
     \<Longrightarrow> \<exists>new. out = bms @ new \<and> walk_inv pp tb new"
  "read_children ext vs pp tb bms = Inr out
     \<Longrightarrow> \<exists>new. out = bms @ new \<and> walk_inv pp tb new"
proof (induction ext folder pp tb bms and ext vs pp tb bms arbitrary: out and out
       rule: RecursiveReadBookmarksFolder_read_children.induct)
  case (1 ext folder parent_path is_in_toolbar bookmarks)
  then show ?case
    by (auto split: option.splits)
next
  case (2 ext parent_path is_in_toolbar bookmarks)
  then show ?case by simp
next
  case (3 ext v rest pp tb bms)
  show ?case
  proof (cases "GetAsDictionary v")
    case None
    with 3 show ?thesis by simp
  next
    case (Some dict)
    let ?ty = "GetString dict ''type'' []"
    let ?nm = "GetString dict ''name'' []"
    let ?da = "GetString dict ''date_added'' []"
    consider (folder) "?ty = ''folder''" | (url) "?ty \<noteq> ''folder''" "?ty = ''url''"
      | (other) "?ty \<noteq> ''folder''" "?ty \<noteq> ''url''"
      by blast
    then show ?thesis
    proof cases
      case folder
      from "3.prems" Some folder obtain t where t: "stoll ?da = Inr t"
        by (cases "stoll ?da") (simp_all add: Let_def)
      let ?e = "\<lparr>in_toolbar = tb, is_folder = True, bookmark_url = GURL_default, path = pp,
                  bookmark_title = ?nm, creation_time = FromDoubleT (chromeTimeToDouble t)\<rparr>"
      from "3.prems" Some folder t obtain mid where
        mid: "RecursiveReadBookmarksFolder ext dict (pp @ [?nm]) False (bms @ [?e]) = Inr mid"
        and rest: "read_children ext rest pp tb mid = Inr out"
        by (cases "RecursiveReadBookmarksFolder ext dict (pp @ [?nm]) False (bms @ [?e])")
           (simp_all add: Let_def)
      from "3.IH"(2) [OF Some refl refl refl refl folder t mid]
      obtain n1 where n1: "mid = (bms @ [?e]) @ n1" "walk_inv (pp @ [?nm]) False n1"
        by blast
      from "3.IH"(3) [OF Some refl refl refl refl folder t mid rest]
      obtain n2 where n2: "out = mid @ n2" "walk_inv pp tb n2"
        by blast
      have "walk_inv pp tb ([?e] @ n1 @ n2)"
        using n1(2) n2(2) walk_inv_deeper [of pp ?nm n1 tb]
        by (simp only: walk_inv_append walk_inv_entry simp_thms)
      moreover have "out = bms @ ([?e] @ n1 @ n2)"
        using n1(1) n2(1) by simp
      ultimately show ?thesis by blast
    next
      case url
      from "3.prems" Some url obtain t where t: "stoll ?da = Inr t"
        by (cases "stoll ?da") (simp_all add: Let_def)
      let ?e = "\<lparr>in_toolbar = tb, is_folder = False,
                  bookmark_url = GURL_of ext (GetString dict ''url'' []), path = pp,
                  bookmark_title = ?nm, creation_time = FromDoubleT (chromeTimeToDouble t)\<rparr>"
      from "3.prems" Some url t have rest: "read_children ext rest pp tb (bms @ [?e]) = Inr out"
        by (simp add: Let_def)
      from "3.IH"(4) [OF Some refl refl refl refl url t rest]
      obtain n2 where n2: "out = (bms @ [?e]) @ n2" "walk_inv pp tb n2"
        by blast
      have "walk_inv pp tb ([?e] @ n2)"
        using n2(2) by (simp only: walk_inv_append walk_inv_entry simp_thms)
      moreover have "out = bms @ ([?e] @ n2)"
        using n2(1) by simp
      ultimately show ?thesis by blast
    next
      case other
      from "3.prems" Some other have "read_children ext rest pp tb bms = Inr out"
        by (simp add: Let_def)
      from "3.IH"(5) [OF Some refl refl refl refl other this] show ?thesis .
    qed
  qed
qed

lemma walk_childless:
  "GetList folder ''children'' = None \<or> GetList folder ''children'' = Some []
     \<Longrightarrow> RecursiveReadBookmarksFolder ext folder pp tb bms = Inr bms"
  by auto

lemma ImportBookmarks_roots_split:
  assumes "GetDictionary d ''roots'' = Some rs"
      and "ImportBookmarks_roots ext d = Inr out"
  shows "\<exists>bar_entries other_entries.
           out = bar_entries @ other_entries
           \<and> (case GetDictionary rs ''bookmark_bar'' of
                 None \<Rightarrow> bar_entries = []
               | Some b \<Rightarrow>
                   RecursiveReadBookmarksFolder ext b [GetString b ''name'' []] True []
                     = Inr bar_entries
                   \<and> (\<forall>e \<in> set bar_entries.
                         in_toolbar e \<longleftrightarrow> path e = [GetString b ''name'' []]))
           \<and> (case GetDictionary rs ''other'' of
                 None \<Rightarrow> other_entries = []
               | Some other \<Rightarrow>
                   RecursiveReadBookmarksFolder ext other [GetString other ''name'' []] False
                     bar_entries = Inr out)
           \<and> (\<forall>e \<in> set other_entries. \<not> in_toolbar e)"
proof -
  define bar_walk where "bar_walk =
    (case GetDictionary rs ''bookmark_bar'' of
       None \<Rightarrow> Inr []
     | Some b \<Rightarrow> RecursiveReadBookmarksFolder ext b [GetString b ''name'' []] True [])"
  from assms obtain bar_entries where be: "bar_walk = Inr bar_entries"
    by (cases bar_walk) (simp_all add: ImportBookmarks_roots_def bar_walk_def)
  have bar: "case GetDictionary rs ''bookmark_bar'' of
                 None \<Rightarrow> bar_entries = []
               | Some b \<Rightarrow>
                   RecursiveReadBookmarksFolder ext b [GetString b ''name'' []] True []
                     = Inr bar_entries
                   \<and> (\<forall>e \<in> set bar_entries.
                         in_toolbar e \<longleftrightarrow> path e = [GetString b ''name'' []])"
  proof (cases "GetDictionary rs ''bookmark_bar''")
    case None
    with be show ?thesis by (simp add: bar_walk_def)
  next
    case (Some b)
    with be have w: "RecursiveReadBookmarksFolder ext b [GetString b ''name'' []] True []
        = Inr bar_entries"
      by (simp add: bar_walk_def)
    from walk_entries(1) [OF w] have "walk_inv [GetString b ''name'' []] True bar_entries"
      by simp
    with Some w show ?thesis
      by (simp add: walk_inv_def)
  qed
  have rest: "(case GetDictionary rs ''other'' of
                 None \<Rightarrow> Inr bar_entries
               | Some other \<Rightarrow>
                   RecursiveReadBookmarksFolder ext other [GetString other ''name'' []] False
                     bar_entries) = Inr out"
    using assms be by (simp add: ImportBookmarks_roots_def bar_walk_def)
  show ?thesis
  proof (cases "GetDictionary rs ''other''")
    case None
    with rest bar show ?thesis
      by (intro exI [of _ bar_entries] exI [of _ "[]"]) simp
  next
    case (Some other)
    with rest have w: "RecursiveReadBookmarksFolder ext other [GetString other ''name'' []] False
        bar_entries = Inr out"
      by simp
    from walk_entries(1) [OF w] obtain new where
      new: "out = bar_entries @ new" "walk_inv [GetString other ''name'' []] False new"
      by blast
    from new(2) have "\<forall>e \<in> set new. \<not> in_toolbar e"
      by (simp add: walk_inv_def)
    with new(1) Some w bar show ?thesis
      by (intro exI [of _ bar_entries] exI [of _ new]) simp
  qed
qed

text \<open>
  Claim C1, as the code has it. For a bookmark tree whose \<^verbatim>\<open>bookmark_bar\<close> root
  contains one sub-folder which contains one URL leaf (both with a \<^verbatim>\<open>date_added\<close>
  that \<open>stoll\<close> reads), the walk of that root started by \<open>ImportBookmarks\<close>
  produces exactly two entries in pre-order: the sub-folder with \<open>in_toolbar = True\<close>
  and path \<open>[bookmark_bar-name]\<close>, then the leaf with \<open>in_toolbar = False\<close> and
  path \<open>[bookmark_bar-name, sub-folder-name]\<close>. The root itself gets no entry. Whatever
  \<^verbatim>\<open>other\<close> root the file has is walked after it with the flag clear, from those two
  entries on: the result of \<open>ImportBookmarks\<close> is the two entries followed by the
  entries of the \<^verbatim>\<open>other\<close> root, none of which is marked as in the toolbar, and it
  is the two entries alone when the \<^verbatim>\<open>other\<close> root is absent or has no children.
  For every Bookmarks file the result is the entries of the bookmark bar, of which exactly
  the direct children of the root are marked, followed by the entries of the
  \<^verbatim>\<open>other\<close> root, none of them marked. In general, of the entries a walk appends,
  those marked as in the toolbar are exactly the direct children of the folder the walk was
  started on, and only when it was started with the flag set.
\<close>

theorem bookmark_bar_walk:
  fixes ext :: externals and bookmark_bar sub leaf :: DictionaryValue and t1 t2 :: int64_t
    and sub_entry leaf_entry :: ImportedBookmarkEntry
  assumes "GetDictionary bookmark_dict ''roots'' = Some roots"
      and "GetDictionary roots ''bookmark_bar'' = Some bookmark_bar"
      and "GetList bookmark_bar ''children'' = Some [DICTIONARY sub]"
      and "GetString sub ''type'' [] = ''folder''"
      and "stoll (GetString sub ''date_added'' []) = Inr t1"
      and "GetList sub ''children'' = Some [DICTIONARY leaf]"
      and "GetString leaf ''type'' [] = ''url''"
      and "stoll (GetString leaf ''date_added'' []) = Inr t2"
  defines "sub_entry \<equiv>
             \<lparr>in_toolbar = True, is_folder = True, bookmark_url = GURL_default,
              path = [GetString bookmark_bar ''name'' []],
              bookmark_title = GetString sub ''name'' [],
              creation_time = FromDoubleT (chromeTimeToDouble t1)\<rparr>"
      and "leaf_entry \<equiv>
             \<lparr>in_toolbar = False, is_folder = False,
              bookmark_url = GURL_of ext (GetString leaf ''url'' []),
              path = [GetString bookmark_bar ''name'' [], GetString sub ''name'' []],
              bookmark_title = GetString leaf ''name'' [],
              creation_time = FromDoubleT (chromeTimeToDouble t2)\<rparr>"
  shows "RecursiveReadBookmarksFolder ext bookmark_bar [GetString bookmark_bar ''name'' []] True []
           = Inr [sub_entry, leaf_entry]
       \<and> ImportBookmarks_roots ext bookmark_dict =
           (case GetDictionary roots ''other'' of
              None \<Rightarrow> Inr [sub_entry, leaf_entry]
            | Some other \<Rightarrow>
                RecursiveReadBookmarksFolder ext other [GetString other ''name'' []] False
                  [sub_entry, leaf_entry])
       \<and> (ImportBookmarks_roots ext bookmark_dict = Inr out \<longrightarrow>
            (\<exists>others. out = [sub_entry, leaf_entry] @ others
               \<and> (\<forall>e \<in> set others. \<not> in_toolbar e)))
       \<and> (GetDictionary roots ''other'' = None
            \<or> (\<exists>other. GetDictionary roots ''other'' = Some other
                  \<and> (GetList other ''children'' = None \<or> GetList other ''children'' = Some []))
           \<longrightarrow> ImportBookmarks_roots ext bookmark_dict = Inr [sub_entry, leaf_entry])
       \<and> (GetDictionary d ''roots'' = Some rs \<and> ImportBookmarks_roots ext d = Inr all \<longrightarrow>
            (\<exists>bar_entries other_entries.
               all = bar_entries @ other_entries
               \<and> (case GetDictionary rs ''bookmark_bar'' of
                     None \<Rightarrow> bar_entries = []
                   | Some b \<Rightarrow>
                       RecursiveReadBookmarksFolder ext b [GetString b ''name'' []] True []
                         = Inr bar_entries
                       \<and> (\<forall>e \<in> set bar_entries.
                             in_toolbar e \<longleftrightarrow> path e = [GetString b ''name'' []]))
               \<and> (case GetDictionary rs ''other'' of
                     None \<Rightarrow> other_entries = []
                   | Some other \<Rightarrow>
                       RecursiveReadBookmarksFolder ext other [GetString other ''name'' []] False
                         bar_entries = Inr all)
               \<and> (\<forall>e \<in> set other_entries. \<not> in_toolbar e)))
       \<and> (RecursiveReadBookmarksFolder ext folder pp tb bms = Inr res \<longrightarrow>
            (\<exists>new. res = bms @ new \<and>
               (\<forall>e \<in> set new. in_toolbar e \<longleftrightarrow> tb \<and> path e = pp)))"
proof -
  have bar: "RecursiveReadBookmarksFolder ext bookmark_bar [GetString bookmark_bar ''name'' []]
      True [] = Inr [sub_entry, leaf_entry]"
    using assms(3-8) by (simp add: Let_def sub_entry_def leaf_entry_def)
  have roots: "ImportBookmarks_roots ext bookmark_dict =
           (case GetDictionary roots ''other'' of
              None \<Rightarrow> Inr [sub_entry, leaf_entry]
            | Some other \<Rightarrow>
                RecursiveReadBookmarksFolder ext other [GetString other ''name'' []] False
                  [sub_entry, leaf_entry])"
    using assms(1,2) by (simp only: ImportBookmarks_roots_def bar option.case sum.case)
  have out: "\<exists>others. out = [sub_entry, leaf_entry] @ others
               \<and> (\<forall>e \<in> set others. \<not> in_toolbar e)"
    if r: "ImportBookmarks_roots ext bookmark_dict = Inr out"
  proof (cases "GetDictionary roots ''other''")
    case None
    with r roots show ?thesis by simp
  next
    case (Some other)
    with r roots have "RecursiveReadBookmarksFolder ext other [GetString other ''name'' []]
        False [sub_entry, leaf_entry] = Inr out"
      by simp
    from walk_entries(1) [OF this] show ?thesis
      by (auto simp: walk_inv_def)
  qed
  have empty: "ImportBookmarks_roots ext bookmark_dict = Inr [sub_entry, leaf_entry]"
    if "GetDictionary roots ''other'' = None
        \<or> (\<exists>other. GetDictionary roots ''other'' = Some other
              \<and> (GetList other ''children'' = None \<or> GetList other ''children'' = Some []))"
    using that roots by (auto simp del: RecursiveReadBookmarksFolder.simps simp: walk_childless)
  have split: "\<exists>bar_entries other_entries.
               all = bar_entries @ other_entries
               \<and> (case GetDictionary rs ''bookmark_bar'' of
                     None \<Rightarrow> bar_entries = []
                   | Some b \<Rightarrow>
                       RecursiveReadBookmarksFolder ext b [GetString b ''name'' []] True []
                         = Inr bar_entries
                       \<and> (\<forall>e \<in> set bar_entries.
                             in_toolbar e \<longleftrightarrow> path e = [GetString b ''name'' []]))
               \<and> (case GetDictionary rs ''other'' of
                     None \<Rightarrow> other_entries = []
                   | Some other \<Rightarrow>
                       RecursiveReadBookmarksFolder ext other [GetString other ''name'' []] False
                         bar_entries = Inr all)
               \<and> (\<forall>e \<in> set other_entries. \<not> in_toolbar e)"
    if "GetDictionary d ''roots'' = Some rs \<and> ImportBookmarks_roots ext d = Inr all"
    using that ImportBookmarks_roots_split [of d rs ext all] by blast
  have walk: "\<exists>new. res = bms @ new \<and> (\<forall>e \<in> set new. in_toolbar e \<longleftrightarrow> tb \<and> path e = pp)"
    if "RecursiveReadBookmarksFolder ext folder pp tb bms = Inr res"
    using walk_entries(1) [OF that] by (auto simp: walk_inv_def)
  from bar roots out empty split walk show ?thesis
    by (intro conjI impI)
qed

theorem bookmark_bar_walk_witness:
  "RecursiveReadBookmarksFolder stubs example_bookmark_bar [''Bookmarks bar''] True []
     = Inr example_bar_entries
   \<and> ImportBookmarks_roots stubs example_bookmarks = Inr example_bar_entries
   \<and> ImportBookmarks_roots stubs example_two_roots
       = Inr (example_bar_entries @ example_other_entries)
   \<and> (\<exists>others. example_bar_entries @ example_other_entries = example_bar_entries @ others
         \<and> (\<forall>e \<in> set others. \<not> in_toolbar e))
   \<and> (\<exists>bar_entries other_entries.
         example_bar_entries @ example_other_entries = bar_entries @ other_entries
         \<and> (RecursiveReadBookmarksFolder stubs example_bookmark_bar [''Bookmarks bar''] True []
               = Inr bar_entries
             \<and> (\<forall>e \<in> set bar_entries. in_toolbar e \<longleftrightarrow> path e = [''Bookmarks bar'']))
         \<and> RecursiveReadBookmarksFolder stubs example_other [''Other bookmarks''] False
               bar_entries = Inr (example_bar_entries @ example_other_entries)
         \<and> (\<forall>e \<in> set other_entries. \<not> in_toolbar e))
   \<and> (\<exists>new. example_bar_entries @ example_other_entries = example_bar_entries @ new
         \<and> (\<forall>e \<in> set new. in_toolbar e \<longleftrightarrow> False \<and> path e = [''Other bookmarks'']))"
proof -
  let ?rs1 = "[(''bookmark_bar'', DICTIONARY example_bookmark_bar)]"
  let ?rs2 = "[(''bookmark_bar'', DICTIONARY example_bookmark_bar),
               (''other'', DICTIONARY example_other)]"
  let ?five = "example_bar_entries @ example_other_entries"
  have t1: "stoll (GetString example_subfolder ''date_added'' []) = Inr 13000000000000000"
    by (simp add: example_subfolder_def dict_eval stoll_eval)
  have t2: "stoll (GetString example_leaf ''date_added'' []) = Inr 12879119098092474"
    by (simp add: example_leaf_def dict_eval stoll_eval)
  have e: "[\<lparr>in_toolbar = True, is_folder = True, bookmark_url = GURL_default,
              path = [GetString example_bookmark_bar ''name'' []],
              bookmark_title = GetString example_subfolder ''name'' [],
              creation_time = FromDoubleT (chromeTimeToDouble 13000000000000000)\<rparr>,
            \<lparr>in_toolbar = False, is_folder = False,
              bookmark_url = GURL_of stubs (GetString example_leaf ''url'' []),
              path = [GetString example_bookmark_bar ''name'' [],
                      GetString example_subfolder ''name'' []],
              bookmark_title = GetString example_leaf ''name'' [],
              creation_time = FromDoubleT (chromeTimeToDouble 12879119098092474)\<rparr>]
           = example_bar_entries"
    by (simp add: example_bar_entries_def example_bookmark_bar_def example_subfolder_def
        example_leaf_def dict_eval time_eval stubs_def stub_GURL_def)
  have nm: "GetString example_bookmark_bar ''name'' [] = ''Bookmarks bar''"
    "GetString example_other ''name'' [] = ''Other bookmarks''"
    by (simp_all add: example_bookmark_bar_def example_other_def dict_eval)
  have shape: "GetList example_bookmark_bar ''children'' = Some [DICTIONARY example_subfolder]"
    "GetString example_subfolder ''type'' [] = ''folder''"
    "GetList example_subfolder ''children'' = Some [DICTIONARY example_leaf]"
    "GetString example_leaf ''type'' [] = ''url''"
    by (simp_all add: example_bookmark_bar_def example_subfolder_def example_leaf_def dict_eval)
  have two: "GetDictionary example_two_roots ''roots'' = Some ?rs2"
    "GetDictionary ?rs2 ''bookmark_bar'' = Some example_bookmark_bar"
    "GetDictionary ?rs2 ''other'' = Some example_other"
    by (simp_all add: example_two_roots_def dict_eval)
  have one: "GetDictionary example_bookmarks ''roots'' = Some ?rs1"
    "GetDictionary ?rs1 ''bookmark_bar'' = Some example_bookmark_bar"
    "GetDictionary ?rs1 ''other'' = None"
    by (simp_all add: example_bookmarks_def dict_eval)
  note A0 = bookmark_bar_walk [OF two(1,2) shape(1,2) t1 shape(3,4) t2,
      where ext = stubs and out = ?five and d = example_two_roots and rs = ?rs2
        and all = ?five and folder = example_other and pp = "[''Other bookmarks'']"
        and tb = False and bms = example_bar_entries and res = ?five, unfolded e]
  note A = A0 [unfolded two(2,3) nm option.case]
  note B0 = bookmark_bar_walk [OF one(1,2) shape(1,2) t1 shape(3,4) t2,
      where ext = stubs, unfolded e]
  have other: "RecursiveReadBookmarksFolder stubs example_other [''Other bookmarks''] False
      example_bar_entries = Inr ?five"
    by (simp add: example_other_def other_leaf_def example_subfolder_def example_leaf_def
        example_bar_entries_def example_other_entries_def
        dict_eval stoll_eval time_eval stubs_def stub_GURL_def Let_def)
  have c1: "RecursiveReadBookmarksFolder stubs example_bookmark_bar [''Bookmarks bar''] True []
     = Inr example_bar_entries"
    by (rule A [THEN conjunct1])
  have c2: "ImportBookmarks_roots stubs example_bookmarks = Inr example_bar_entries"
    by (rule B0 [THEN conjunct2, THEN conjunct2, THEN conjunct2, THEN conjunct1, THEN mp,
          OF disjI1 [OF one(3)]])
  have c3: "ImportBookmarks_roots stubs example_two_roots = Inr ?five"
    using A [THEN conjunct2, THEN conjunct1] other by (rule trans)
  note c4 = A [THEN conjunct2, THEN conjunct2, THEN conjunct1, THEN mp, OF c3]
  note c5 = A [THEN conjunct2, THEN conjunct2, THEN conjunct2, THEN conjunct2, THEN conjunct1,
      THEN mp, OF conjI [OF two(1) c3]]
  note c6 = A [THEN conjunct2, THEN conjunct2, THEN conjunct2, THEN conjunct2, THEN conjunct2,
      THEN mp, OF other]
  from c1 c2 c3 c4 c5 c6 show ?thesis
    by (intro conjI)
qed

text \<open>
  The walk of the claim's tree has two entries, not three: the root has none of its own,
  and the sub-folder is marked as in the toolbar.
\<close>

theorem bookmark_bar_walk_counterexample:
  "ImportBookmarks_roots stubs example_bookmarks =
     Inr [\<lparr>in_toolbar = True, is_folder = True, bookmark_url = GURL_default,
           path = [''Bookmarks bar''], bookmark_title = ''News'',
           creation_time = FromDoubleT 1355526400\<rparr>,
          \<lparr>in_toolbar = False, is_folder = False,
           bookmark_url = GURL ''http://example.com/'' True ''http'',
           path = [''Bookmarks bar'', ''News''], bookmark_title = ''Example'',
           creation_time = FromDoubleT 1234645498\<rparr>]
   \<and> length [\<lparr>in_toolbar = True, is_folder = True, bookmark_url = GURL_default,
           path = [''Bookmarks bar''], bookmark_title = ''News'',
           creation_time = FromDoubleT 1355526400\<rparr>,
          \<lparr>in_toolbar = False, is_folder = False,
           bookmark_url = GURL ''http://example.com/'' True ''http'',
           path = [''Bookmarks bar'', ''News''], bookmark_title = ''Example'',
           creation_time = FromDoubleT 1234645498\<rparr>] \<noteq> 3"
  by (simp add: ImportBookmarks_roots_def example_bookmarks_def example_bookmark_bar_def
      example_subfolder_def example_leaf_def dict_eval stoll_eval time_eval stubs_def
      stub_GURL_def Let_def)

text \<open>
  The loop passes over a child that is not a dictionary or has no recognised type: the
  walk of the children with such a child among them is the walk without it.
\<close>

lemma read_children_skips_untyped:
  "untyped_node v \<Longrightarrow>
     read_children ext (before @ [v] @ after) pp tb bms = read_children ext (before @ after) pp tb bms"
proof (induction before arbitrary: bms)
  case Nil
  then show ?case
    by (auto simp: untyped_node_def Let_def split: option.splits)
next
  case (Cons c before)
  then show ?case
    by (simp add: Let_def split: option.splits sum.splits)
qed

text \<open>
  A child of type \<^verbatim>\<open>folder\<close> or \<^verbatim>\<open>url\<close> whose \<^verbatim>\<open>date_added\<close> makes \<open>stoll\<close>
  throw ends the loop with that exception, whatever children follow it.
\<close>

lemma read_children_throws:
  assumes "GetAsDictionary v = Some dict"
      and "GetString dict ''type'' [] = ''folder'' \<or> GetString dict ''type'' [] = ''url''"
      and "stoll (GetString dict ''date_added'' []) = Inl e"
  shows "read_children ext (v # after) pp tb bms = Inl e"
  using assms by (auto simp: Let_def)

text \<open>
  Claim C5 at a failing input. The bookmark bar holds a leaf whose \<^verbatim>\<open>date_added\<close> is
  \<^verbatim>\<open>"yesterday"\<close>, followed by a well-formed leaf. \<open>stoll\<close> throws
  \<^verbatim>\<open>std::invalid_argument\<close> on the first leaf and the walk ends there: the second leaf
  produces no entry, and \<open>ImportBookmarks\<close> is left by the exception. On its own the
  second leaf is read.
\<close>

theorem unparseable_date_aborts_walk:
  "RecursiveReadBookmarksFolder stubs undated_bookmark_bar [''Bookmarks bar''] True []
     = Inl invalid_argument
   \<and> ImportBookmarks_roots stubs undated_bookmarks = Inl invalid_argument
   \<and> ImportBookmarks stubs never_set undated_profile fresh = Terminated invalid_argument fresh
   \<and> read_children stubs [DICTIONARY example_leaf] [''Bookmarks bar''] True []
     = Inr [\<lparr>in_toolbar = True, is_folder = False,
             bookmark_url = GURL ''http://example.com/'' True ''http'',
             path = [''Bookmarks bar''], bookmark_title = ''Example'',
             creation_time = FromDoubleT 1234645498\<rparr>]"
  by (simp add: ImportBookmarks_def ImportBookmarks_roots_def undated_bookmarks_def
      undated_bookmark_bar_def undated_leaf_def example_leaf_def dict_eval stoll_eval time_eval
      stubs_def stub_GURL_def stub_JSONReader_def undated_profile_def Let_def)

subsection \<open>Row-consuming categories: history and cookies\<close>

lemma ImportHistory_loop_result:
  "\<exists>n \<le> length rs.
     ImportHistory_loop ext flag rs rows s
       = (rows @ map (history_row ext) (take n rs),
          s\<lparr>polls := polls s + (if n < length rs then Suc n else n)\<rparr>)
     \<and> (\<forall>k < n. \<not> flag (polls s + k))
     \<and> (n < length rs \<longrightarrow> flag (polls s + n))"
proof (induction rs arbitrary: rows s)
  case Nil
  show ?case by simp
next
  case (Cons r rs)
  show ?case
  proof (cases "flag (polls s)")
    case True
    then show ?thesis
      by (intro exI [of _ 0]) (simp add: cancelled_def polled_def)
  next
    case False
    from Cons.IH [of "rows @ [history_row ext r]" "polled s"]
    obtain n where n: "n \<le> length rs"
      "ImportHistory_loop ext flag rs (rows @ [history_row ext r]) (polled s)
       = ((rows @ [history_row ext r]) @ map (history_row ext) (take n rs),
          (polled s)\<lparr>polls := polls (polled s) + (if n < length rs then Suc n else n)\<rparr>)"
      "\<forall>k < n. \<not> flag (polls (polled s) + k)"
      "n < length rs \<longrightarrow> flag (polls (polled s) + n)"
      by blast
    have "\<forall>k < Suc n. \<not> flag (polls s + k)"
      using False n(3) by (auto simp: less_Suc_eq_0_disj)
    with n False show ?thesis
      by (intro exI [of _ "Suc n"]) (simp add: cancelled_def polled_def)
  qed
qed

lemma ImportCookies_loop_result:
  "\<exists>n \<le> length rs.
     ImportCookies_loop flag rs cookies s
       = (cookies @ map cookie_entry (take n rs),
          s\<lparr>polls := polls s + (if n < length rs then Suc n else n)\<rparr>)
     \<and> (\<forall>k < n. \<not> flag (polls s + k))
     \<and> (n < length rs \<longrightarrow> flag (polls s + n))"
proof (induction rs arbitrary: cookies s)
  case Nil
  show ?case by simp
next
  case (Cons r rs)
  show ?case
  proof (cases "flag (polls s)")
    case True
    then show ?thesis
      by (intro exI [of _ 0]) (simp add: cancelled_def polled_def)
  next
    case False
    from Cons.IH [of "cookies @ [cookie_entry r]" "polled s"]
    obtain n where n: "n \<le> length rs"
      "ImportCookies_loop flag rs (cookies @ [cookie_entry r]) (polled s)
       = ((cookies @ [cookie_entry r]) @ map cookie_entry (take n rs),
          (polled s)\<lparr>polls := polls (polled s) + (if n < length rs then Suc n else n)\<rparr>)"
      "\<forall>k < n. \<not> flag (polls (polled s) + k)"
      "n < length rs \<longrightarrow> flag (polls (polled s) + n)"
      by blast
    have "\<forall>k < Suc n. \<not> flag (polls s + k)"
      using False n(3) by (auto simp: less_Suc_eq_0_disj)
    with n False show ?thesis
      by (intro exI [of _ "Suc n"]) (simp add: cancelled_def polled_def)
  qed
qed

text \<open>
  What \<open>ImportHistory\<close> adds to the calls on the bridge: with \<open>n\<close> the number of rows
  the loop collected, nothing, or one \<open>SetHistoryItems\<close> with the records of the first
  \<open>n\<close> rows of the query.
\<close>

lemma ImportHistory_calls:
  assumes "History files = Db table"
  shows "\<exists>n \<le> length (filter (\<lambda>r. urls_hidden r = 0) table).
     (\<forall>k < n. \<not> flag (polls s + k))
     \<and> (n < length (filter (\<lambda>r. urls_hidden r = 0) table) \<longrightarrow> flag (polls s + n))
     \<and> fst (ImportHistory_loop ext flag (filter (\<lambda>r. urls_hidden r = 0) table) [] s)
         = map (history_row ext) (take n (filter (\<lambda>r. urls_hidden r = 0) table))
     \<and> calls (ImportHistory ext flag files s) =
         calls s @
          (if 0 < n \<and> \<not> flag (polls s + (if n < length (filter (\<lambda>r. urls_hidden r = 0) table) then Suc n else n))
           then [SetHistoryItems (map (history_row ext) (take n (filter (\<lambda>r. urls_hidden r = 0) table)))
                   VISIT_SOURCE_CHROME_IMPORTED]
           else [])"
proof -
  let ?q = "filter (\<lambda>r. urls_hidden r = 0) table"
  from ImportHistory_loop_result [of ?q ext flag "[]" s]
  obtain n where n: "n \<le> length ?q"
    "ImportHistory_loop ext flag ?q [] s
       = ([] @ map (history_row ext) (take n ?q),
          s\<lparr>polls := polls s + (if n < length ?q then Suc n else n)\<rparr>)"
    "\<forall>k < n. \<not> flag (polls s + k)"
    "n < length ?q \<longrightarrow> flag (polls s + n)"
    by blast
  have e: "map (history_row ext) (take n ?q) = [] \<longleftrightarrow> n = 0"
    using n(1) by (cases ?q) auto
  show ?thesis
    using n e assms
    by (intro exI [of _ n]) (auto simp: ImportHistory_def cancelled_def)
qed

lemma ImportHistory_calls_absent:
  "History files = NoFile \<or> History files = OpenFails \<Longrightarrow> ImportHistory ext flag files s = s"
  by (auto simp: ImportHistory_def)

lemma ImportCookies_calls:
  assumes "Cookies files = Db table"
  shows "\<exists>n \<le> length (filter (\<lambda>r. length (encrypted_value r) = 0) table).
     (\<forall>k < n. \<not> flag (polls s + k))
     \<and> (n < length (filter (\<lambda>r. length (encrypted_value r) = 0) table) \<longrightarrow> flag (polls s + n))
     \<and> fst (ImportCookies_loop flag (filter (\<lambda>r. length (encrypted_value r) = 0) table) [] s)
         = map cookie_entry (take n (filter (\<lambda>r. length (encrypted_value r) = 0) table))
     \<and> calls (ImportCookies flag files s) =
         calls s @
          (if 0 < n \<and> \<not> flag (polls s + (if n < length (filter (\<lambda>r. length (encrypted_value r) = 0) table) then Suc n else n))
           then [SetCookies (map cookie_entry (take n (filter (\<lambda>r. length (encrypted_value r) = 0) table)))]
           else [])"
proof -
  let ?q = "filter (\<lambda>r. length (encrypted_value r) = 0) table"
  from ImportCookies_loop_result [of ?q flag "[]" s]
  obtain n where n: "n \<le> length ?q"
    "ImportCookies_loop flag ?q [] s
       = ([] @ map cookie_entry (take n ?q),
          s\<lparr>polls := polls s + (if n < length ?q then Suc n else n)\<rparr>)"
    "\<forall>k < n. \<not> flag (polls s + k)"
    "n < length ?q \<longrightarrow> flag (polls s + n)"
    by blast
  have e: "map cookie_entry (take n ?q) = [] \<longleftrightarrow> n = 0"
    using n(1) by (cases ?q) auto
  show ?thesis
    using n e assms
    by (intro exI [of _ n]) (auto simp: ImportCookies_def cancelled_def)
qed

lemma ImportCookies_absent:
  "Cookies files = NoFile \<or> Cookies files = OpenFails \<Longrightarrow> ImportCookies flag files s = s"
  by (auto simp: ImportCookies_def)

text \<open>
  Claim C2, as the code has it. For the two row-consuming categories, history and cookies:
  if the cancellation flag is read as set by one of the reads of the loop over the query's
  rows, and stays set, the iteration stops before the rows are exhausted, the remaining
  rows are discarded, and nothing is delivered to the sink for that category, the rows
  collected up to that point included: after the loop the code delivers only if
  \<^verbatim>\<open>!cancelled()\<close> holds once more.
\<close>

theorem cancelled_iteration_delivers_nothing:
  assumes "stays_set flag"
  shows "(History files = Db table \<and> polls s \<le> k
            \<and> k < polls s + length (filter (\<lambda>r. urls_hidden r = 0) table) \<and> flag k \<longrightarrow>
          length (fst (ImportHistory_loop ext flag (filter (\<lambda>r. urls_hidden r = 0) table) [] s))
            < length (filter (\<lambda>r. urls_hidden r = 0) table)
          \<and> calls (ImportHistory ext flag files s) = calls s)
       \<and> (Cookies files = Db ctable \<and> polls s \<le> k
            \<and> k < polls s + length (filter (\<lambda>r. length (encrypted_value r) = 0) ctable) \<and> flag k \<longrightarrow>
          length (fst (ImportCookies_loop flag (filter (\<lambda>r. length (encrypted_value r) = 0) ctable) [] s))
            < length (filter (\<lambda>r. length (encrypted_value r) = 0) ctable)
          \<and> calls (ImportCookies flag files s) = calls s)"
proof (intro conjI impI; elim conjE)
  let ?q = "filter (\<lambda>r. urls_hidden r = 0) table"
  assume db: "History files = Db table" and k: "polls s \<le> k" "k < polls s + length ?q" "flag k"
  from ImportHistory_calls [OF db, of flag s ext]
  obtain n where n: "n \<le> length ?q" "\<forall>k < n. \<not> flag (polls s + k)"
    "n < length ?q \<longrightarrow> flag (polls s + n)"
    "fst (ImportHistory_loop ext flag ?q [] s) = map (history_row ext) (take n ?q)"
    "calls (ImportHistory ext flag files s) =
       calls s @ (if 0 < n \<and> \<not> flag (polls s + (if n < length ?q then Suc n else n))
          then [SetHistoryItems (map (history_row ext) (take n ?q)) VISIT_SOURCE_CHROME_IMPORTED]
          else [])"
    by blast
  have "\<not> k - polls s < n"
    using n(2) k by (metis le_add_diff_inverse)
  then have lt: "n < length ?q"
    using k by linarith
  then have "flag (polls s + n)"
    using n(3) by simp
  then have "flag (polls s + Suc n)"
    using assms unfolding stays_set_def by (metis add_Suc_right le_add2 plus_1_eq_Suc)
  with lt n show "length (fst (ImportHistory_loop ext flag ?q [] s)) < length ?q"
    and "calls (ImportHistory ext flag files s) = calls s"
    by simp_all
next
  let ?q = "filter (\<lambda>r. length (encrypted_value r) = 0) ctable"
  assume db: "Cookies files = Db ctable" and k: "polls s \<le> k" "k < polls s + length ?q" "flag k"
  from ImportCookies_calls [OF db, of flag s]
  obtain n where n: "n \<le> length ?q" "\<forall>k < n. \<not> flag (polls s + k)"
    "n < length ?q \<longrightarrow> flag (polls s + n)"
    "fst (ImportCookies_loop flag ?q [] s) = map cookie_entry (take n ?q)"
    "calls (ImportCookies flag files s) =
       calls s @ (if 0 < n \<and> \<not> flag (polls s + (if n < length ?q then Suc n else n))
          then [SetCookies (map cookie_entry (take n ?q))]
          else [])"
    by blast
  have "\<not> k - polls s < n"
    using n(2) k by (metis le_add_diff_inverse)
  then have lt: "n < length ?q"
    using k by linarith
  then have "flag (polls s + n)"
    using n(3) by simp
  then have "flag (polls s + Suc n)"
    using assms unfolding stays_set_def by (metis add_Suc_right le_add2 plus_1_eq_Suc)
  with lt n show "length (fst (ImportCookies_loop flag ?q [] s)) < length ?q"
    and "calls (ImportCookies flag files s) = calls s"
    by simp_all
qed

lemmas loop_eval = ImportHistory_def ImportCookies_def cancelled_def set_from_def never_set_def
  fresh_def polled_def bridge_def example_profile_def example_urls_def example_cookies_def

theorem cancelled_iteration_counterexample:
  "fst (ImportHistory_loop stubs (set_from 1) (filter (\<lambda>r. urls_hidden r = 0) example_urls) [] fresh)
     = [history_row stubs (example_urls ! 0)]
   \<and> calls (ImportHistory stubs (set_from 1) example_profile fresh) = []
   \<and> fst (ImportCookies_loop (set_from 1)
        (filter (\<lambda>r. length (encrypted_value r) = 0) example_cookies) [] fresh)
     = [cookie_entry (example_cookies ! 0)]
   \<and> calls (ImportCookies (set_from 1) example_profile fresh) = []"
  by (simp add: loop_eval)

lemma stays_set_set_from: "stays_set (set_from n)"
  by (simp add: stays_set_def set_from_def)

theorem cancelled_iteration_delivers_nothing_witness:
  "stays_set (set_from 1)
   \<and> set_from 1 1
   \<and> length (fst (ImportHistory_loop stubs (set_from 1)
         (filter (\<lambda>r. urls_hidden r = 0) example_urls) [] fresh)) < 2
   \<and> calls (ImportHistory stubs (set_from 1) example_profile fresh) = calls fresh
   \<and> length (fst (ImportCookies_loop (set_from 1)
         (filter (\<lambda>r. length (encrypted_value r) = 0) example_cookies) [] fresh)) < 2
   \<and> calls (ImportCookies (set_from 1) example_profile fresh) = calls fresh"
  using cancelled_iteration_delivers_nothing [OF stays_set_set_from,
      where files = example_profile and table = example_urls and s = fresh and k = 1
        and ext = stubs and ctable = example_cookies]
  by (simp add: stays_set_set_from loop_eval)

text \<open>
  Claim C9. Whatever \<open>ImportHistory\<close> delivers is the list of the records of an initial
  segment of the rows of \<^verbatim>\<open>urls\<close> with \<^verbatim>\<open>hidden = 0\<close>, in table order: a row with
  \<^verbatim>\<open>hidden = 1\<close> is excluded by the query and contributes no record, and every delivered
  record has its \<open>hidden\<close> flag false.
\<close>

theorem hidden_history_rows_excluded:
  assumes "SetHistoryItems rows source \<in> set (calls (ImportHistory ext flag files s))"
      and "SetHistoryItems rows source \<notin> set (calls s)"
  shows "\<exists>table n. History files = Db table
           \<and> rows = map (history_row ext) (take n (filter (\<lambda>r. urls_hidden r = 0) table))
           \<and> (\<forall>x \<in> set rows. \<not> hidden x
                 \<and> (\<exists>r \<in> set table. urls_hidden r = 0 \<and> x = history_row ext r))"
proof (cases "History files")
  case NoFile
  with assms show ?thesis
    by (simp add: ImportHistory_calls_absent)
next
  case OpenFails
  with assms show ?thesis
    by (simp add: ImportHistory_calls_absent)
next
  case (Db table)
  let ?q = "filter (\<lambda>r. urls_hidden r = 0) table"
  from ImportHistory_calls [OF Db, of flag s ext]
  obtain n where n:
    "calls (ImportHistory ext flag files s) =
       calls s @ (if 0 < n \<and> \<not> flag (polls s + (if n < length ?q then Suc n else n))
          then [SetHistoryItems (map (history_row ext) (take n ?q)) VISIT_SOURCE_CHROME_IMPORTED]
          else [])"
    by blast
  with assms have rows: "rows = map (history_row ext) (take n ?q)"
    by (auto split: if_splits)
  have "\<forall>x \<in> set rows. \<not> hidden x \<and> (\<exists>r \<in> set table. urls_hidden r = 0 \<and> x = history_row ext r)"
  proof
    fix x assume "x \<in> set rows"
    then obtain r where r: "r \<in> set (take n ?q)" "x = history_row ext r"
      unfolding rows by auto
    from r(1) have "r \<in> set ?q"
      by (rule in_set_takeD)
    with r(2) show "\<not> hidden x \<and> (\<exists>r \<in> set table. urls_hidden r = 0 \<and> x = history_row ext r)"
      by (auto simp: history_row_def)
  qed
  with Db rows show ?thesis by blast
qed

theorem hidden_history_rows_excluded_witness:
  "calls (ImportHistory stubs never_set example_profile fresh)
     = [SetHistoryItems [history_row stubs (example_urls ! 0), history_row stubs (example_urls ! 2)]
          VISIT_SOURCE_CHROME_IMPORTED]
   \<and> urls_hidden (example_urls ! 1) = 1
   \<and> (\<exists>table n. History example_profile = Db table
         \<and> [history_row stubs (example_urls ! 0), history_row stubs (example_urls ! 2)]
             = map (history_row stubs) (take n (filter (\<lambda>r. urls_hidden r = 0) table))
         \<and> (\<forall>x \<in> set [history_row stubs (example_urls ! 0), history_row stubs (example_urls ! 2)].
               \<not> hidden x \<and> (\<exists>r \<in> set table. urls_hidden r = 0 \<and> x = history_row stubs r)))"
proof -
  have c: "calls (ImportHistory stubs never_set example_profile fresh)
     = [SetHistoryItems [history_row stubs (example_urls ! 0), history_row stubs (example_urls ! 2)]
          VISIT_SOURCE_CHROME_IMPORTED]"
    by (simp add: loop_eval)
  have h: "urls_hidden (example_urls ! 1) = 1"
    by (simp add: example_urls_def)
  from c h hidden_history_rows_excluded
      [of "[history_row stubs (example_urls ! 0), history_row stubs (example_urls ! 2)]"
          VISIT_SOURCE_CHROME_IMPORTED stubs never_set example_profile fresh]
  show ?thesis
    by (simp add: fresh_def)
qed

text \<open>
  Claim C6. Whatever \<open>ImportCookies\<close> delivers is the list of the entries of an initial
  segment of the rows whose \<^verbatim>\<open>encrypted_value\<close> is empty, so a row with a non-empty
  encrypted value is never delivered; every delivered entry has \<open>host = "*" + domain\<close>
  with \<open>domain\<close> the \<^verbatim>\<open>host_key\<close> of its row; and in a run that is not cancelled every
  row with an empty encrypted value is delivered, in one call.
\<close>

theorem cookie_filter:
  "(SetCookies cookies \<in> set (calls (ImportCookies flag files s))
      \<and> SetCookies cookies \<notin> set (calls s) \<longrightarrow>
    (\<exists>table n. Cookies files = Db table
        \<and> cookies = map cookie_entry (take n (filter (\<lambda>r. length (encrypted_value r) = 0) table))
        \<and> (\<forall>c \<in> set cookies. host c = ''*'' @ domain c
              \<and> (\<exists>r \<in> set table. encrypted_value r = [] \<and> c = cookie_entry r
                    \<and> domain c = host_key r))))
   \<and> (Cookies files = Db table \<and> (\<forall>k. \<not> flag k) \<longrightarrow>
        calls (ImportCookies flag files s) =
          calls s @
           (if filter (\<lambda>r. encrypted_value r = []) table = [] then []
            else [SetCookies (map cookie_entry (filter (\<lambda>r. encrypted_value r = []) table))]))"
proof (intro conjI impI; (elim conjE)?)
  assume a: "SetCookies cookies \<in> set (calls (ImportCookies flag files s))"
     and b: "SetCookies cookies \<notin> set (calls s)"
  show "\<exists>table n. Cookies files = Db table
        \<and> cookies = map cookie_entry (take n (filter (\<lambda>r. length (encrypted_value r) = 0) table))
        \<and> (\<forall>c \<in> set cookies. host c = ''*'' @ domain c
              \<and> (\<exists>r \<in> set table. encrypted_value r = [] \<and> c = cookie_entry r
                    \<and> domain c = host_key r))"
  proof (cases "Cookies files")
    case NoFile
    with a b show ?thesis by (simp add: ImportCookies_absent)
  next
    case OpenFails
    with a b show ?thesis by (simp add: ImportCookies_absent)
  next
    case (Db tbl)
    let ?q = "filter (\<lambda>r. length (encrypted_value r) = 0) tbl"
    from ImportCookies_calls [OF Db, of flag s]
    obtain n where n:
      "calls (ImportCookies flag files s) =
         calls s @ (if 0 < n \<and> \<not> flag (polls s + (if n < length ?q then Suc n else n))
            then [SetCookies (map cookie_entry (take n ?q))] else [])"
      by blast
    with a b have cookies: "cookies = map cookie_entry (take n ?q)"
      by (auto split: if_splits)
    have "\<forall>c \<in> set cookies. host c = ''*'' @ domain c
              \<and> (\<exists>r \<in> set tbl. encrypted_value r = [] \<and> c = cookie_entry r
                    \<and> domain c = host_key r)"
    proof
      fix c assume "c \<in> set cookies"
      then obtain r where r: "r \<in> set (take n ?q)" "c = cookie_entry r"
        unfolding cookies by auto
      from r(1) have "r \<in> set ?q"
        by (rule in_set_takeD)
      with r(2) show "host c = ''*'' @ domain c
              \<and> (\<exists>r \<in> set tbl. encrypted_value r = [] \<and> c = cookie_entry r
                    \<and> domain c = host_key r)"
        by (auto simp: cookie_entry_def)
    qed
    with Db cookies show ?thesis by blast
  qed
next
  assume db: "Cookies files = Db table" and nc: "\<forall>k. \<not> flag k"
  let ?q = "filter (\<lambda>r. length (encrypted_value r) = 0) table"
  from ImportCookies_calls [OF db, of flag s]
  obtain n where n: "n \<le> length ?q" "n < length ?q \<longrightarrow> flag (polls s + n)"
    "calls (ImportCookies flag files s) =
       calls s @ (if 0 < n \<and> \<not> flag (polls s + (if n < length ?q then Suc n else n))
          then [SetCookies (map cookie_entry (take n ?q))] else [])"
    by blast
  from n(1,2) nc have "n = length ?q"
    by (cases "n < length ?q") simp_all
  with n(3) nc show "calls (ImportCookies flag files s) =
          calls s @
           (if filter (\<lambda>r. encrypted_value r = []) table = [] then []
            else [SetCookies (map cookie_entry (filter (\<lambda>r. encrypted_value r = []) table))])"
    by simp
qed

theorem cookie_filter_witness:
  "calls (ImportCookies never_set example_profile fresh)
     = [SetCookies [cookie_entry (example_cookies ! 0), cookie_entry (example_cookies ! 2)]]
   \<and> encrypted_value (example_cookies ! 1) \<noteq> []
   \<and> host (cookie_entry (example_cookies ! 0)) = ''*.example.com''
   \<and> (\<exists>table n. Cookies example_profile = Db table
        \<and> [cookie_entry (example_cookies ! 0), cookie_entry (example_cookies ! 2)]
            = map cookie_entry (take n (filter (\<lambda>r. length (encrypted_value r) = 0) table))
        \<and> (\<forall>c \<in> set [cookie_entry (example_cookies ! 0), cookie_entry (example_cookies ! 2)].
              host c = ''*'' @ domain c
              \<and> (\<exists>r \<in> set table. encrypted_value r = [] \<and> c = cookie_entry r
                    \<and> domain c = host_key r)))"
proof -
  have c: "calls (ImportCookies never_set example_profile fresh)
     = [SetCookies [cookie_entry (example_cookies ! 0), cookie_entry (example_cookies ! 2)]]"
    using cookie_filter
      [where files = example_profile and table = example_cookies and flag = never_set
         and s = fresh]
    by (simp add: example_profile_def never_set_def fresh_def example_cookies_def)
  have e: "encrypted_value (example_cookies ! 1) \<noteq> []"
    "host (cookie_entry (example_cookies ! 0)) = ''*.example.com''"
    by (simp_all add: example_cookies_def cookie_entry_def)
  from c e cookie_filter
      [where cookies = "[cookie_entry (example_cookies ! 0), cookie_entry (example_cookies ! 2)]"
         and flag = never_set and files = example_profile and s = fresh]
  show ?thesis
    by (simp add: fresh_def)
qed

subsection \<open>FaviconResolver\<close>

lemma favicon_map_insert_keys:
  "map fst (favicon_map_insert k u m) = (if k \<in> set (map fst m) then map fst m else map fst m @ [k])"
proof (induction m)
  case Nil
  show ?case by simp
next
  case (Cons a m)
  obtain k' us where a: "a = (k', us)" by (cases a)
  show ?case
    unfolding a using Cons.IH by (cases "k = k'") simp_all
qed

lemma favicon_map_insert_lookup:
  "map_of (favicon_map_insert k u m) k' =
     (if k' = k then Some (insert u (case map_of m k of None \<Rightarrow> {} | Some us \<Rightarrow> us))
      else map_of m k')"
  by (induction m) auto

lemma ImportFaviconURLs_calls [simp]:
  "calls (snd (ImportFaviconURLs ext flag rows m s)) = calls s"
  by (induction rows arbitrary: m s) (simp_all add: cancelled_def)

lemma ImportFaviconURLs_uncancelled:
  assumes "\<forall>k. \<not> flag k"
  shows "ImportFaviconURLs ext flag rows m s
           = (foldl (\<lambda>m r. favicon_map_insert (icon_id r) (GURL_of ext (page_url r)) m) m rows,
              s\<lparr>polls := polls s + length rows\<rparr>)"
  using assms by (induction rows arbitrary: m s) (simp_all add: cancelled_def polled_def)

lemma favicon_map_fold_lookup:
  "map_of (foldl (\<lambda>m r. favicon_map_insert (icon_id r) (GURL_of ext (page_url r)) m) m rows) i
     = (if i \<in> icon_id ` set rows
        then Some ((case map_of m i of None \<Rightarrow> {} | Some us \<Rightarrow> us)
                    \<union> {GURL_of ext (page_url r) |r. r \<in> set rows \<and> icon_id r = i})
        else map_of m i)"
proof (induction rows arbitrary: m)
  case Nil
  show ?case by simp
next
  case (Cons r rows)
  have *: "{GURL_of ext (page_url x) |x. x \<in> set (r # rows) \<and> icon_id x = i}
      = (if icon_id r = i then {GURL_of ext (page_url r)} else {})
          \<union> {GURL_of ext (page_url x) |x. x \<in> set rows \<and> icon_id x = i}"
    by auto
  have **: "i \<notin> icon_id ` set rows \<Longrightarrow>
      {GURL_of ext (page_url x) |x. x \<in> set rows \<and> icon_id x = i} = {}"
    by auto
  show ?case
    unfolding foldl_Cons Cons.IH *
    by (simp add: favicon_map_insert_lookup ** Un_ac split: option.splits)
qed

lemma favicon_map_fold_distinct:
  "distinct (map fst m) \<Longrightarrow>
   distinct (map fst (foldl (\<lambda>m r. favicon_map_insert (icon_id r) (GURL_of ext (page_url r)) m) m rows))"
  by (induction rows arbitrary: m) (simp_all add: favicon_map_insert_keys)

lemma LoadFaviconData_append:
  "LoadFaviconData ext table (m1 @ m2) favicons
     = LoadFaviconData ext table m2 (LoadFaviconData ext table m1 favicons)"
  by (induction m1 arbitrary: favicons) (auto simp: Let_def split: option.splits)

lemma LoadFaviconData_omitted:
  assumes "find (\<lambda>r. favicons_id r = i) table = Some r" and "omitted_icon ext r"
  shows "LoadFaviconData ext table [(i, page_urls)] favicons = favicons"
  using assms by (auto simp: omitted_icon_def Let_def)

lemma LoadFaviconData_length:
  "length (LoadFaviconData ext table m favicons) \<le> length favicons + length m"
proof (induction m arbitrary: favicons)
  case Nil
  show ?case by simp
next
  case (Cons a m)
  obtain i us where a: "a = (i, us)" by (cases a)
  show ?case
    unfolding a
    by (auto simp: Let_def split: option.splits intro: order_trans [OF Cons.IH])
qed

lemma LoadFaviconData_prefix:
  "LoadFaviconData ext table m (a @ b) = a @ LoadFaviconData ext table m b"
proof (induction m arbitrary: b)
  case Nil
  show ?case by simp
next
  case (Cons e m)
  obtain i us where e: "e = (i, us)" by (cases e)
  show ?case
    unfolding e using Cons.IH [of "b @ _"] Cons.IH [of b]
    by (simp add: Let_def split: option.splits)
qed

lemma LoadFaviconData_acc:
  "LoadFaviconData ext table m favicons = favicons @ LoadFaviconData ext table m []"
  using LoadFaviconData_prefix [of ext table m favicons "[]"] by simp

lemma LoadFaviconData_split:
  "LoadFaviconData ext table (before @ [entry] @ after) []
     = LoadFaviconData ext table before [] @ LoadFaviconData ext table [entry] []
         @ LoadFaviconData ext table after []"
proof -
  have "LoadFaviconData ext table (before @ [entry] @ after) []
      = LoadFaviconData ext table after
          (LoadFaviconData ext table [entry] (LoadFaviconData ext table before []))"
    by (simp only: LoadFaviconData_append)
  also have "\<dots> = LoadFaviconData ext table [entry] (LoadFaviconData ext table before [])
      @ LoadFaviconData ext table after []"
    by (rule LoadFaviconData_acc)
  also have "LoadFaviconData ext table [entry] (LoadFaviconData ext table before [])
      = LoadFaviconData ext table before [] @ LoadFaviconData ext table [entry] []"
    by (rule LoadFaviconData_acc)
  finally show ?thesis by simp
qed

lemma LoadFaviconData_remote:
  assumes "find (\<lambda>r. favicons_id r = i) table = Some r"
      and "is_valid (GURL_of ext (favicons_url r))"
      and "\<not> SchemeIs (GURL_of ext (favicons_url r)) kDataScheme"
  shows "LoadFaviconData ext table [(i, page_urls)] []
           = [\<lparr>favicon_url = GURL_of ext (favicons_url r), png_data = [], urls = page_urls\<rparr>]"
  using assms by (simp add: Let_def)

lemma LoadFaviconData_inline:
  assumes "find (\<lambda>r. favicons_id r = i) table = Some r"
      and "is_valid (GURL_of ext (favicons_url r))"
      and "SchemeIs (GURL_of ext (favicons_url r)) kDataScheme"
      and "favicons_url r \<noteq> []"
      and "ReencodeFavicon ext (favicons_url r) = Some png"
  shows "LoadFaviconData ext table [(i, page_urls)] []
           = [\<lparr>favicon_url = GURL_default, png_data = png, urls = page_urls\<rparr>]"
  using assms by (simp add: Let_def)

lemma LoadFaviconData_missing:
  "find (\<lambda>r. favicons_id r = i) table = None \<Longrightarrow> LoadFaviconData ext table [(i, page_urls)] [] = []"
  by simp

lemma favicon_map_fold_empty:
  "foldl (\<lambda>m r. favicon_map_insert (icon_id r) (GURL_of ext (page_url r)) m) m rows = []
     \<longleftrightarrow> m = [] \<and> rows = []"
proof (induction rows arbitrary: m)
  case Nil
  show ?case by simp
next
  case (Cons r rows)
  have "favicon_map_insert k u m \<noteq> []" for k u
    by (cases m) (auto split: if_splits)
  then show ?case
    by (simp add: Cons.IH)
qed

lemma ImportBookmarks_favicons_uncancelled:
  assumes "Favicons files = Db db" and "\<forall>k. \<not> flag k"
  shows "calls (ImportBookmarks_favicons ext flag files s) =
           calls s @
            (if icon_mapping_table db = [] then []
             else [SetFavicons (LoadFaviconData ext (favicons_table db)
                     (fst (ImportFaviconURLs ext flag (icon_mapping_table db) [] s)) [])])"
  using assms
  by (simp add: ImportBookmarks_favicons_def ImportFaviconURLs_uncancelled cancelled_def
      favicon_map_fold_empty)

lemma favicon_map_entry:
  assumes "\<forall>k. \<not> flag k" and "filter (\<lambda>x. icon_id x = i) rows \<noteq> []"
  shows "\<exists>before after.
           fst (ImportFaviconURLs ext flag rows [] s)
             = before @ [(i, set (map (\<lambda>x. GURL_of ext (page_url x))
                                  (filter (\<lambda>x. icon_id x = i) rows)))] @ after
           \<and> i \<notin> fst ` set before \<and> i \<notin> fst ` set after"
proof -
  let ?m = "foldl (\<lambda>m r. favicon_map_insert (icon_id r) (GURL_of ext (page_url r)) m) [] rows"
  let ?S = "set (map (\<lambda>x. GURL_of ext (page_url x)) (filter (\<lambda>x. icon_id x = i) rows))"
  have m: "fst (ImportFaviconURLs ext flag rows [] s) = ?m"
    using ImportFaviconURLs_uncancelled [OF assms(1)] by simp
  have d: "distinct (map fst ?m)"
    by (rule favicon_map_fold_distinct) simp
  have "{GURL_of ext (page_url x) |x. x \<in> set rows \<and> icon_id x = i} = ?S"
    by auto
  moreover have "i \<in> icon_id ` set rows"
    using assms(2) by (auto simp: filter_empty_conv)
  ultimately have "map_of ?m i = Some ?S"
    unfolding favicon_map_fold_lookup by simp
  then have "(i, ?S) \<in> set ?m"
    by (rule map_of_SomeD)
  then obtain before after where s: "?m = before @ (i, ?S) # after"
    by (auto dest: split_list)
  with d have "i \<notin> fst ` set before" "i \<notin> fst ` set after"
    by auto
  with s m show ?thesis
    by (intro exI [of _ before] exI [of _ after]) simp
qed

text \<open>
  Claim C7. In a run that is not cancelled, for any favicons database: the map holds each
  icon id once, with the set of the page URLs of all its rows (a URL that occurs twice
  counts once), and the records of the map's entries, in the order of the map, are what
  \<open>SetFavicons\<close> receives. When the rows of an icon id carry two distinct page URLs
  and the icon is stored as a valid URL that is not a data URL, the delivered list holds
  for that id exactly one \<open>FaviconUsageData\<close>, at the id's place among the records of
  the other ids: its \<open>favicon_url\<close> is the stored URL as it is, it has no image bytes,
  and its set of page URLs is the set of those two. For any map: an entry whose icon is
  stored as a valid URL that is not a data URL yields one record with the stored URL, no
  bytes and the entry's own set of page URLs; an entry whose icon is a data URL that the
  codec re-encodes yields one record with the re-encoded bytes and the entry's own set; an
  entry whose icon has no row, or whose row is an invalid URL, or a data URL that cannot
  be re-encoded, yields none; and in each case the entries before and after it resolve as
  they do on their own. Every entry of the map yields at most one record.
\<close>

theorem favicon_resolution:
  "(Favicons files = Db db \<and> (\<forall>k. \<not> flag k) \<longrightarrow>
      calls (ImportBookmarks_favicons ext flag files s) =
        calls s @
         (if icon_mapping_table db = [] then []
          else [SetFavicons (LoadFaviconData ext (favicons_table db)
                  (fst (ImportFaviconURLs ext flag (icon_mapping_table db) [] s)) [])]))
   \<and> ((\<forall>k. \<not> flag k) \<longrightarrow>
        distinct (map fst (fst (ImportFaviconURLs ext flag rows [] s)))
        \<and> map_of (fst (ImportFaviconURLs ext flag rows [] s)) j =
            (if filter (\<lambda>x. icon_id x = j) rows = [] then None
             else Some (set (map (\<lambda>x. GURL_of ext (page_url x))
                              (filter (\<lambda>x. icon_id x = j) rows)))))
   \<and> (Favicons files = Db db \<and> (\<forall>k. \<not> flag k)
        \<and> set (map (\<lambda>x. GURL_of ext (page_url x))
                 (filter (\<lambda>x. icon_id x = i) (icon_mapping_table db))) = {g1, g2}
        \<and> g1 \<noteq> g2
        \<and> find (\<lambda>r. favicons_id r = i) (favicons_table db) = Some r
        \<and> is_valid (GURL_of ext (favicons_url r))
        \<and> \<not> SchemeIs (GURL_of ext (favicons_url r)) kDataScheme \<longrightarrow>
        card {g1, g2} = 2
        \<and> (\<exists>before after.
              fst (ImportFaviconURLs ext flag (icon_mapping_table db) [] s)
                = before @ [(i, {g1, g2})] @ after
              \<and> i \<notin> fst ` set before \<and> i \<notin> fst ` set after
              \<and> calls (ImportBookmarks_favicons ext flag files s) =
                  calls s @
                   [SetFavicons
                     (LoadFaviconData ext (favicons_table db) before []
                      @ [\<lparr>favicon_url = GURL_of ext (favicons_url r), png_data = [],
                           urls = {g1, g2}\<rparr>]
                      @ LoadFaviconData ext (favicons_table db) after [])]))
   \<and> (find (\<lambda>r. favicons_id r = i) table = Some r
        \<and> is_valid (GURL_of ext (favicons_url r))
        \<and> \<not> SchemeIs (GURL_of ext (favicons_url r)) kDataScheme \<longrightarrow>
        LoadFaviconData ext table (before @ [(i, page_urls)] @ after) []
          = LoadFaviconData ext table before []
            @ [\<lparr>favicon_url = GURL_of ext (favicons_url r), png_data = [], urls = page_urls\<rparr>]
            @ LoadFaviconData ext table after [])
   \<and> (find (\<lambda>r. favicons_id r = i) table = Some r
        \<and> is_valid (GURL_of ext (favicons_url r))
        \<and> SchemeIs (GURL_of ext (favicons_url r)) kDataScheme
        \<and> favicons_url r \<noteq> []
        \<and> ReencodeFavicon ext (favicons_url r) = Some png \<longrightarrow>
        LoadFaviconData ext table (before @ [(i, page_urls)] @ after) []
          = LoadFaviconData ext table before []
            @ [\<lparr>favicon_url = GURL_default, png_data = png, urls = page_urls\<rparr>]
            @ LoadFaviconData ext table after [])
   \<and> (find (\<lambda>r. favicons_id r = i) table = None
        \<or> (find (\<lambda>r. favicons_id r = i) table = Some r \<and> omitted_icon ext r) \<longrightarrow>
        LoadFaviconData ext table (before @ [(i, page_urls)] @ after) favicons
          = favicons @ LoadFaviconData ext table before [] @ LoadFaviconData ext table after [])
   \<and> length (LoadFaviconData ext table m []) \<le> length m"
proof (intro conjI impI; (elim conjE)?)
  show "length (LoadFaviconData ext table m []) \<le> length m"
    using LoadFaviconData_length [of ext table m "[]"] by simp
next
  assume "Favicons files = Db db" and "\<forall>k. \<not> flag k"
  then show "calls (ImportBookmarks_favicons ext flag files s) =
        calls s @
         (if icon_mapping_table db = [] then []
          else [SetFavicons (LoadFaviconData ext (favicons_table db)
                  (fst (ImportFaviconURLs ext flag (icon_mapping_table db) [] s)) [])])"
    by (rule ImportBookmarks_favicons_uncancelled)
next
  assume nc: "\<forall>k. \<not> flag k"
  let ?m = "foldl (\<lambda>m r. favicon_map_insert (icon_id r) (GURL_of ext (page_url r)) m) [] rows"
  have m: "fst (ImportFaviconURLs ext flag rows [] s) = ?m"
    using ImportFaviconURLs_uncancelled [OF nc] by simp
  show "distinct (map fst (fst (ImportFaviconURLs ext flag rows [] s)))"
    unfolding m by (rule favicon_map_fold_distinct) simp
  have "{GURL_of ext (page_url x) |x. x \<in> set rows \<and> icon_id x = j}
      = set (map (\<lambda>x. GURL_of ext (page_url x)) (filter (\<lambda>x. icon_id x = j) rows))"
    by auto
  moreover have "j \<in> icon_id ` set rows \<longleftrightarrow> filter (\<lambda>x. icon_id x = j) rows \<noteq> []"
    by (auto simp: filter_empty_conv)
  ultimately show "map_of (fst (ImportFaviconURLs ext flag rows [] s)) j =
            (if filter (\<lambda>x. icon_id x = j) rows = [] then None
             else Some (set (map (\<lambda>x. GURL_of ext (page_url x))
                              (filter (\<lambda>x. icon_id x = j) rows))))"
    unfolding m favicon_map_fold_lookup by simp
next
  assume db: "Favicons files = Db db"
    and nc: "\<forall>k. \<not> flag k"
    and S: "set (map (\<lambda>x. GURL_of ext (page_url x))
                 (filter (\<lambda>x. icon_id x = i) (icon_mapping_table db))) = {g1, g2}"
    and ne: "g1 \<noteq> g2"
    and r: "find (\<lambda>r. favicons_id r = i) (favicons_table db) = Some r"
      "is_valid (GURL_of ext (favicons_url r))"
      "\<not> SchemeIs (GURL_of ext (favicons_url r)) kDataScheme"
  show "card {g1, g2} = 2"
    using ne by simp
  have rows: "filter (\<lambda>x. icon_id x = i) (icon_mapping_table db) \<noteq> []"
  proof
    assume "filter (\<lambda>x. icon_id x = i) (icon_mapping_table db) = []"
    then have "set (map (\<lambda>x. GURL_of ext (page_url x))
                 (filter (\<lambda>x. icon_id x = i) (icon_mapping_table db))) = {}"
      by (simp only: list.map list.set)
    with S show False
      by simp
  qed
  then have ne_rows: "icon_mapping_table db \<noteq> []"
    by auto
  from favicon_map_entry [OF nc rows, of ext s] S
  obtain before after where
    m: "fst (ImportFaviconURLs ext flag (icon_mapping_table db) [] s)
          = before @ [(i, {g1, g2})] @ after"
    and k: "i \<notin> fst ` set before" "i \<notin> fst ` set after"
    by auto
  have "LoadFaviconData ext (favicons_table db) (before @ [(i, {g1, g2})] @ after) []
      = LoadFaviconData ext (favicons_table db) before []
        @ [\<lparr>favicon_url = GURL_of ext (favicons_url r), png_data = [], urls = {g1, g2}\<rparr>]
        @ LoadFaviconData ext (favicons_table db) after []"
    by (simp only: LoadFaviconData_split LoadFaviconData_remote [OF r])
  with ImportBookmarks_favicons_uncancelled [OF db nc, of ext s] ne_rows m
  have "calls (ImportBookmarks_favicons ext flag files s) =
      calls s @
       [SetFavicons
         (LoadFaviconData ext (favicons_table db) before []
          @ [\<lparr>favicon_url = GURL_of ext (favicons_url r), png_data = [], urls = {g1, g2}\<rparr>]
          @ LoadFaviconData ext (favicons_table db) after [])]"
    by simp
  with m k show "\<exists>before after.
              fst (ImportFaviconURLs ext flag (icon_mapping_table db) [] s)
                = before @ [(i, {g1, g2})] @ after
              \<and> i \<notin> fst ` set before \<and> i \<notin> fst ` set after
              \<and> calls (ImportBookmarks_favicons ext flag files s) =
                  calls s @
                   [SetFavicons
                     (LoadFaviconData ext (favicons_table db) before []
                      @ [\<lparr>favicon_url = GURL_of ext (favicons_url r), png_data = [],
                           urls = {g1, g2}\<rparr>]
                      @ LoadFaviconData ext (favicons_table db) after [])]"
    by (intro exI [of _ before] exI [of _ after] conjI)
next
  assume r: "find (\<lambda>r. favicons_id r = i) table = Some r"
      "is_valid (GURL_of ext (favicons_url r))"
      "\<not> SchemeIs (GURL_of ext (favicons_url r)) kDataScheme"
  show "LoadFaviconData ext table (before @ [(i, page_urls)] @ after) []
          = LoadFaviconData ext table before []
            @ [\<lparr>favicon_url = GURL_of ext (favicons_url r), png_data = [], urls = page_urls\<rparr>]
            @ LoadFaviconData ext table after []"
    by (simp only: LoadFaviconData_split LoadFaviconData_remote [OF r])
next
  assume r: "find (\<lambda>r. favicons_id r = i) table = Some r"
      "is_valid (GURL_of ext (favicons_url r))"
      "SchemeIs (GURL_of ext (favicons_url r)) kDataScheme"
      "favicons_url r \<noteq> []"
      "ReencodeFavicon ext (favicons_url r) = Some png"
  show "LoadFaviconData ext table (before @ [(i, page_urls)] @ after) []
          = LoadFaviconData ext table before []
            @ [\<lparr>favicon_url = GURL_default, png_data = png, urls = page_urls\<rparr>]
            @ LoadFaviconData ext table after []"
    by (simp only: LoadFaviconData_split LoadFaviconData_inline [OF r])
next
  assume "find (\<lambda>r. favicons_id r = i) table = None
        \<or> (find (\<lambda>r. favicons_id r = i) table = Some r \<and> omitted_icon ext r)"
  then have "LoadFaviconData ext table [(i, page_urls)] [] = []"
  proof
    assume "find (\<lambda>r. favicons_id r = i) table = None"
    then show ?thesis
      by (rule LoadFaviconData_missing)
  next
    assume "find (\<lambda>r. favicons_id r = i) table = Some r \<and> omitted_icon ext r"
    then show ?thesis
      using LoadFaviconData_omitted [of i table r ext page_urls "[]"] by blast
  qed
  then have "LoadFaviconData ext table (before @ [(i, page_urls)] @ after) []
      = LoadFaviconData ext table before [] @ LoadFaviconData ext table after []"
    by (simp only: LoadFaviconData_split append_Nil)
  then show "LoadFaviconData ext table (before @ [(i, page_urls)] @ after) favicons
          = favicons @ LoadFaviconData ext table before [] @ LoadFaviconData ext table after []"
    by (subst LoadFaviconData_acc) simp
qed


theorem favicon_resolution_witness:
  "calls (ImportBookmarks_favicons stubs never_set favicons_only fresh)
     = [SetFavicons
         [\<lparr>favicon_url = GURL ''http://example.com/favicon.ico'' True ''http'', png_data = [],
            urls = {GURL ''http://example.com/'' True ''http'',
                    GURL ''http://example.com/news'' True ''http''}\<rparr>,
          \<lparr>favicon_url = GURL_default, png_data = ''png'',
            urls = {GURL ''http://inline.example/'' True ''http''}\<rparr>]]
   \<and> map_of (fst (ImportFaviconURLs stubs never_set (icon_mapping_table example_favicons) [] fresh)) 7
       = Some {GURL ''http://example.com/'' True ''http'', GURL ''http://example.com/news'' True ''http''}
   \<and> card {GURL ''http://example.com/'' True ''http'', GURL ''http://example.com/news'' True ''http''} = 2
   \<and> (\<exists>before after.
         fst (ImportFaviconURLs stubs never_set (icon_mapping_table example_favicons) [] fresh)
           = before @ [(7, {GURL ''http://example.com/'' True ''http'',
                            GURL ''http://example.com/news'' True ''http''})] @ after
         \<and> 7 \<notin> fst ` set before \<and> 7 \<notin> fst ` set after
         \<and> calls (ImportBookmarks_favicons stubs never_set favicons_only fresh) =
             calls fresh @
              [SetFavicons
                (LoadFaviconData stubs (favicons_table example_favicons) before []
                 @ [\<lparr>favicon_url = GURL ''http://example.com/favicon.ico'' True ''http'',
                      png_data = [],
                      urls = {GURL ''http://example.com/'' True ''http'',
                              GURL ''http://example.com/news'' True ''http''}\<rparr>]
                 @ LoadFaviconData stubs (favicons_table example_favicons) after [])])
   \<and> LoadFaviconData stubs (favicons_table example_favicons)
         ([(8, {GURL ''http://broken.example/'' True ''http''})]
          @ [(7, {GURL ''http://example.com/'' True ''http''})]
          @ [(9, {GURL ''http://inline.example/'' True ''http''})]) []
       = LoadFaviconData stubs (favicons_table example_favicons)
           [(8, {GURL ''http://broken.example/'' True ''http''})] []
         @ [\<lparr>favicon_url = GURL ''http://example.com/favicon.ico'' True ''http'', png_data = [],
              urls = {GURL ''http://example.com/'' True ''http''}\<rparr>]
         @ LoadFaviconData stubs (favicons_table example_favicons)
             [(9, {GURL ''http://inline.example/'' True ''http''})] []
   \<and> LoadFaviconData stubs (favicons_table example_favicons)
         ([(7, {GURL ''http://example.com/'' True ''http''})]
          @ [(9, {GURL ''http://inline.example/'' True ''http''})]
          @ [(8, {GURL ''http://broken.example/'' True ''http''})]) []
       = LoadFaviconData stubs (favicons_table example_favicons)
           [(7, {GURL ''http://example.com/'' True ''http''})] []
         @ [\<lparr>favicon_url = GURL_default, png_data = ''png'',
              urls = {GURL ''http://inline.example/'' True ''http''}\<rparr>]
         @ LoadFaviconData stubs (favicons_table example_favicons)
             [(8, {GURL ''http://broken.example/'' True ''http''})] []
   \<and> omitted_icon stubs \<lparr>favicons_id = 8, favicons_url = ''data:image/png,broken''\<rparr>
   \<and> LoadFaviconData stubs (favicons_table example_favicons)
         ([(7, {GURL ''http://example.com/'' True ''http''})]
          @ [(8, {GURL ''http://broken.example/'' True ''http''})]
          @ [(9, {GURL ''http://inline.example/'' True ''http''})]) []
       = [] @ LoadFaviconData stubs (favicons_table example_favicons)
                [(7, {GURL ''http://example.com/'' True ''http''})] []
            @ LoadFaviconData stubs (favicons_table example_favicons)
                [(9, {GURL ''http://inline.example/'' True ''http''})] []"
proof -
  let ?ex = "GURL ''http://example.com/'' True ''http''"
  let ?news = "GURL ''http://example.com/news'' True ''http''"
  let ?r7 = "\<lparr>favicons_id = 7, favicons_url = ''http://example.com/favicon.ico''\<rparr>"
  let ?r8 = "\<lparr>favicons_id = 8, favicons_url = ''data:image/png,broken''\<rparr>"
  let ?r9 = "\<lparr>favicons_id = 9, favicons_url = ''data:image/png,ok''\<rparr>"
  let ?table = "favicons_table example_favicons"
  note T = favicon_resolution
      [where files = favicons_only and db = example_favicons
         and ext = stubs and flag = never_set and s = fresh
         and rows = "icon_mapping_table example_favicons" and j = 7
         and i = 7 and ?g1.0 = ?ex and ?g2.0 = ?news and table = ?table and r = ?r7
         and before = "[(8, {GURL ''http://broken.example/'' True ''http''})]"
         and page_urls = "{?ex}"
         and after = "[(9, {GURL ''http://inline.example/'' True ''http''})]"]
  note U = favicon_resolution
      [where i = 9 and table = ?table and ext = stubs and r = ?r9 and png = "''png''"
         and before = "[(7, {?ex})]"
         and page_urls = "{GURL ''http://inline.example/'' True ''http''}"
         and after = "[(8, {GURL ''http://broken.example/'' True ''http''})]"]
  note V = favicon_resolution
      [where i = 8 and table = ?table and ext = stubs and r = ?r8
         and before = "[(7, {?ex})]"
         and page_urls = "{GURL ''http://broken.example/'' True ''http''}"
         and after = "[(9, {GURL ''http://inline.example/'' True ''http''})]"
         and favicons = "[]"]
  have nc: "\<forall>k. \<not> never_set k"
    by (simp add: never_set_def)
  have g: "GURL_of stubs ''http://example.com/'' = ?ex"
    "GURL_of stubs ''http://example.com/news'' = ?news"
    "GURL_of stubs ''http://example.com/favicon.ico''
       = GURL ''http://example.com/favicon.ico'' True ''http''"
    "GURL_of stubs ''http://broken.example/'' = GURL ''http://broken.example/'' True ''http''"
    "GURL_of stubs ''http://inline.example/'' = GURL ''http://inline.example/'' True ''http''"
    "GURL_of stubs ''data:image/png,ok'' = GURL ''data:image/png,ok'' True ''data''"
    "GURL_of stubs ''data:image/png,broken'' = GURL ''data:image/png,broken'' True ''data''"
    by (simp_all add: stubs_def stub_GURL_def)
  have re: "ReencodeFavicon stubs ''data:image/png,ok'' = Some ''png''"
    "ReencodeFavicon stubs ''data:image/png,broken'' = None"
    by (simp_all add: stubs_def stub_ReencodeFavicon_def)
  have rows: "icon_mapping_table example_favicons =
        [\<lparr>icon_id = 7, page_url = ''http://example.com/''\<rparr>,
         \<lparr>icon_id = 8, page_url = ''http://broken.example/''\<rparr>,
         \<lparr>icon_id = 7, page_url = ''http://example.com/news''\<rparr>,
         \<lparr>icon_id = 9, page_url = ''http://inline.example/''\<rparr>,
         \<lparr>icon_id = 7, page_url = ''http://example.com/''\<rparr>]"
    and table: "?table = [?r7, ?r8, ?r9]"
    by (simp_all add: example_favicons_def)
  have m: "fst (ImportFaviconURLs stubs never_set (icon_mapping_table example_favicons) [] fresh)
      = [(7, {?ex, ?news}), (8, {GURL ''http://broken.example/'' True ''http''}),
         (9, {GURL ''http://inline.example/'' True ''http''})]"
    unfolding rows
    by (simp add: cancelled_def never_set_def polled_def g insert_commute)
  have f: "find (\<lambda>r. favicons_id r = 7) ?table = Some ?r7"
    "find (\<lambda>r. favicons_id r = 8) ?table = Some ?r8"
    "find (\<lambda>r. favicons_id r = 9) ?table = Some ?r9"
    unfolding table by simp_all
  have l: "LoadFaviconData stubs ?table
       [(7, {?ex, ?news}), (8, {GURL ''http://broken.example/'' True ''http''}),
        (9, {GURL ''http://inline.example/'' True ''http''})] []
     = [\<lparr>favicon_url = GURL ''http://example.com/favicon.ico'' True ''http'', png_data = [],
          urls = {?ex, ?news}\<rparr>,
        \<lparr>favicon_url = GURL_default, png_data = ''png'',
          urls = {GURL ''http://inline.example/'' True ''http''}\<rparr>]"
    unfolding table
    by (simp add: g re SchemeIs_def kDataScheme_def)
  have h1: "Favicons favicons_only = Db example_favicons \<and> (\<forall>k. \<not> never_set k)"
    by (simp add: favicons_only_def nc)
  have a: "calls (ImportBookmarks_favicons stubs never_set favicons_only fresh)
     = [SetFavicons
         [\<lparr>favicon_url = GURL ''http://example.com/favicon.ico'' True ''http'', png_data = [],
            urls = {?ex, ?news}\<rparr>,
          \<lparr>favicon_url = GURL_default, png_data = ''png'',
            urls = {GURL ''http://inline.example/'' True ''http''}\<rparr>]]"
    using T [THEN conjunct1, THEN mp, OF h1] unfolding m l
    by (simp add: rows fresh_def)
  have "filter (\<lambda>x. icon_id x = 7) (icon_mapping_table example_favicons)
      = [\<lparr>icon_id = 7, page_url = ''http://example.com/''\<rparr>,
         \<lparr>icon_id = 7, page_url = ''http://example.com/news''\<rparr>,
         \<lparr>icon_id = 7, page_url = ''http://example.com/''\<rparr>]"
    by (simp add: rows)
  then have S: "set (map (\<lambda>x. GURL_of stubs (page_url x))
                   (filter (\<lambda>x. icon_id x = 7) (icon_mapping_table example_favicons)))
      = {?ex, ?news}"
    by (simp add: g insert_commute)
  have b: "map_of (fst (ImportFaviconURLs stubs never_set
                  (icon_mapping_table example_favicons) [] fresh)) 7 = Some {?ex, ?news}"
    using T [THEN conjunct2, THEN conjunct1, THEN mp, OF nc, THEN conjunct2] unfolding S
    by (simp add: rows)
  have v7: "is_valid (GURL_of stubs (favicons_url ?r7))"
    "\<not> SchemeIs (GURL_of stubs (favicons_url ?r7)) kDataScheme"
    by (simp_all add: g SchemeIs_def kDataScheme_def)
  have h3: "Favicons favicons_only = Db example_favicons \<and> (\<forall>k. \<not> never_set k)
      \<and> set (map (\<lambda>x. GURL_of stubs (page_url x))
               (filter (\<lambda>x. icon_id x = 7) (icon_mapping_table example_favicons))) = {?ex, ?news}
      \<and> ?ex \<noteq> ?news
      \<and> find (\<lambda>r. favicons_id r = 7) ?table = Some ?r7
      \<and> is_valid (GURL_of stubs (favicons_url ?r7))
      \<and> \<not> SchemeIs (GURL_of stubs (favicons_url ?r7)) kDataScheme"
    using h1 S f(1) v7 by simp
  note c = T [THEN conjunct2, THEN conjunct2, THEN conjunct1, THEN mp, OF h3,
      unfolded favicons_row.simps g]
  have h4: "find (\<lambda>r. favicons_id r = 7) ?table = Some ?r7
      \<and> is_valid (GURL_of stubs (favicons_url ?r7))
      \<and> \<not> SchemeIs (GURL_of stubs (favicons_url ?r7)) kDataScheme"
    using f(1) v7 by simp
  note d = T [THEN conjunct2, THEN conjunct2, THEN conjunct2, THEN conjunct1, THEN mp, OF h4,
      unfolded favicons_row.simps g]
  have h5: "find (\<lambda>r. favicons_id r = 9) ?table = Some ?r9
      \<and> is_valid (GURL_of stubs (favicons_url ?r9))
      \<and> SchemeIs (GURL_of stubs (favicons_url ?r9)) kDataScheme
      \<and> favicons_url ?r9 \<noteq> []
      \<and> ReencodeFavicon stubs (favicons_url ?r9) = Some ''png''"
    using f(3) by (simp add: g re SchemeIs_def kDataScheme_def)
  note e = U [THEN conjunct2, THEN conjunct2, THEN conjunct2, THEN conjunct2, THEN conjunct1,
      THEN mp, OF h5]
  have o: "omitted_icon stubs ?r8"
    by (simp add: omitted_icon_def g re SchemeIs_def kDataScheme_def)
  with f(2) have h6: "find (\<lambda>r. favicons_id r = 8) ?table = None
      \<or> (find (\<lambda>r. favicons_id r = 8) ?table = Some ?r8 \<and> omitted_icon stubs ?r8)"
    by simp
  note w = V [THEN conjunct2, THEN conjunct2, THEN conjunct2, THEN conjunct2, THEN conjunct2,
      THEN conjunct1, THEN mp, OF h6]
  from a b c d e o w show ?thesis
    by (intro conjI) (simp_all only: simp_thms)
qed

subsection \<open>CredentialStore and the Bookmarks file\<close>

lemma SetPasswordForms_calls [simp]:
  "calls (SetPasswordForms forms s) = calls s @ map SetPasswordForm forms"
  "polls (SetPasswordForms forms s) = polls s"
  by (induction forms arbitrary: s) simp_all

text \<open>
  Claim C8. \<open>ImportPasswords\<close> makes one \<open>SetPasswordForm\<close> call for each credential
  of each retrieval call that succeeds, the autofillable ones in retrieval order and then
  the blacklisted ones in retrieval order, and no other call; a retrieval call that fails
  contributes no call and the other one is made all the same; and the Passwords step ends
  with "item ended" whatever the two calls return. (The database is read only if its
  \<open>Init\<close> succeeds.)
\<close>

theorem credentials_forwarded:
  "calls (ImportPasswords files s) =
     calls s @
      (if Init (Login_Data files)
       then map SetPasswordForm
              (if fst (GetAutofillableLogins (Login_Data files))
               then snd (GetAutofillableLogins (Login_Data files)) else [])
            @ map SetPasswordForm
                (if fst (GetBlacklistLogins (Login_Data files))
                 then snd (GetBlacklistLogins (Login_Data files)) else [])
       else [])
   \<and> polls (ImportPasswords files s) = polls s
   \<and> calls (StartImport_passwords flag files items s) =
       calls s @
        (if requested items PASSWORDS \<and> \<not> flag (polls s)
         then [NotifyItemStarted PASSWORDS]
              @ (if Init (Login_Data files)
                 then map SetPasswordForm
                        (if fst (GetAutofillableLogins (Login_Data files))
                         then snd (GetAutofillableLogins (Login_Data files)) else [])
                      @ map SetPasswordForm
                          (if fst (GetBlacklistLogins (Login_Data files))
                           then snd (GetBlacklistLogins (Login_Data files)) else [])
                 else [])
              @ [NotifyItemEnded PASSWORDS]
         else [])"
  by (simp add: ImportPasswords_def StartImport_passwords_def cancelled_def Let_def
      split: prod.splits)

theorem credentials_forwarded_witness:
  "calls (ImportPasswords (example_profile\<lparr>Login_Data := example_logins\<rparr>) fresh) =
     [SetPasswordForm (PasswordForm ''http://example.com/'' ''alice'' ''secret'' False),
      SetPasswordForm (PasswordForm ''http://example.com/news'' ''alice'' ''hunter2'' False),
      SetPasswordForm (PasswordForm ''http://bank.example/'' [] [] True)]
   \<and> calls (ImportPasswords
        (example_profile\<lparr>Login_Data := example_logins\<lparr>GetAutofillableLogins := (False, [])\<rparr>\<rparr>) fresh) =
     [SetPasswordForm (PasswordForm ''http://bank.example/'' [] [] True)]"
  using credentials_forwarded [of "example_profile\<lparr>Login_Data := example_logins\<rparr>" fresh]
    credentials_forwarded
      [of "example_profile\<lparr>Login_Data := example_logins\<lparr>GetAutofillableLogins := (False, [])\<rparr>\<rparr>" fresh]
  by (simp add: example_logins_def fresh_def)

text \<open>
  Claim C10. If the Bookmarks file cannot be read (its content is then empty, which the
  JSON reader rejects), or its content does not parse, or parses to something that is not
  a dictionary, \<open>ImportBookmarks\<close> returns at once: it makes no call on the bridge, so no
  favicons are delivered, whatever the Favicons database holds.
\<close>

theorem favicons_need_parseable_bookmarks:
  "(Bookmarks files = None \<and> JSONReader_Read ext [] = None)
   \<or> (Bookmarks files = Some content \<and> JSONReader_Read ext content = None)
   \<or> (Bookmarks files = Some content \<and> JSONReader_Read ext content = Some v
        \<and> GetAsDictionary v = None)
   \<Longrightarrow> ImportBookmarks ext flag files s = Returned s"
  by (auto simp: ImportBookmarks_def)

lemmas bookmarks_eval = ImportBookmarks_def ImportBookmarks_roots_def ImportBookmarks_favicons_def
  stub_JSONReader_def example_bookmarks_def example_bookmark_bar_def example_subfolder_def
  example_leaf_def undated_bookmarks_def undated_bookmark_bar_def undated_leaf_def
  dict_eval stoll_eval time_eval cancelled_def never_set_def fresh_def polled_def bridge_def
  favicons_only_def example_favicons_def stubs_def stub_GURL_def
  stub_ReencodeFavicon_def SchemeIs_def kDataScheme_def GURL_default_def Let_def

theorem favicons_need_parseable_bookmarks_witness:
  "ImportBookmarks stubs never_set favicons_only fresh = Returned fresh
   \<and> ImportBookmarks stubs never_set (favicons_only\<lparr>Bookmarks := Some ''[]''\<rparr>) fresh = Returned fresh
   \<and> ImportBookmarks stubs never_set (favicons_only\<lparr>Bookmarks := Some ''{''\<rparr>) fresh = Returned fresh
   \<and> calls (ImportBookmarks_favicons stubs never_set favicons_only fresh)
       = [SetFavicons
           [\<lparr>favicon_url = GURL ''http://example.com/favicon.ico'' True ''http'', png_data = [],
              urls = {GURL ''http://example.com/'' True ''http'',
                      GURL ''http://example.com/news'' True ''http''}\<rparr>,
            \<lparr>favicon_url = GURL_default, png_data = ''png'',
              urls = {GURL ''http://inline.example/'' True ''http''}\<rparr>]]"
proof -
  have 1: "ImportBookmarks stubs never_set favicons_only fresh = Returned fresh"
    by (rule favicons_need_parseable_bookmarks [where content = "[]" and v = NONE])
       (simp add: favicons_only_def stubs_def stub_JSONReader_def)
  have 2: "ImportBookmarks stubs never_set (favicons_only\<lparr>Bookmarks := Some ''[]''\<rparr>) fresh
      = Returned fresh"
    by (rule favicons_need_parseable_bookmarks [where content = "''[]''" and v = "LIST []"])
       (simp add: favicons_only_def stubs_def stub_JSONReader_def)
  have 3: "ImportBookmarks stubs never_set (favicons_only\<lparr>Bookmarks := Some ''{''\<rparr>) fresh
      = Returned fresh"
    by (rule favicons_need_parseable_bookmarks [where content = "''{''" and v = NONE])
       (simp add: favicons_only_def stubs_def stub_JSONReader_def)
  have 4: "calls (ImportBookmarks_favicons stubs never_set favicons_only fresh)
       = [SetFavicons
           [\<lparr>favicon_url = GURL ''http://example.com/favicon.ico'' True ''http'', png_data = [],
              urls = {GURL ''http://example.com/'' True ''http'',
                      GURL ''http://example.com/news'' True ''http''}\<rparr>,
            \<lparr>favicon_url = GURL_default, png_data = ''png'',
              urls = {GURL ''http://inline.example/'' True ''http''}\<rparr>]]"
    by (simp add: bookmarks_eval insert_commute)
  from 1 2 3 4 show ?thesis by simp
qed

subsection \<open>ImportSession: the order of the signals\<close>

lemma ImportHistory_data:
  "\<exists>d. calls (ImportHistory ext flag files s) = calls s @ d \<and> (\<forall>c \<in> set d. \<not> is_notification c)"
proof (cases "History files")
  case (Db table)
  from ImportHistory_calls [OF Db, of flag s ext] show ?thesis
    by (auto split: if_splits)
qed (simp_all add: ImportHistory_calls_absent)

lemma ImportCookies_data:
  "\<exists>d. calls (ImportCookies flag files s) = calls s @ d \<and> (\<forall>c \<in> set d. \<not> is_notification c)"
proof (cases "Cookies files")
  case (Db table)
  from ImportCookies_calls [OF Db, of flag s] show ?thesis
    by (auto split: if_splits)
qed (simp_all add: ImportCookies_absent)

lemma ImportPasswords_data:
  "\<exists>d. calls (ImportPasswords files s) = calls s @ d \<and> (\<forall>c \<in> set d. \<not> is_notification c)"
  by (auto simp: ImportPasswords_def Let_def split: prod.splits)

lemma ImportBookmarks_favicons_data:
  "\<exists>d. calls (ImportBookmarks_favicons ext flag files s) = calls s @ d
       \<and> (\<forall>c \<in> set d. \<not> is_notification c)"
proof (cases "Favicons files")
  case (Db db)
  obtain m s1 where e: "ImportFaviconURLs ext flag (icon_mapping_table db) [] s = (m, s1)"
    by (cases "ImportFaviconURLs ext flag (icon_mapping_table db) [] s")
  have "calls s1 = calls s"
    using ImportFaviconURLs_calls [of ext flag "icon_mapping_table db" "[]" s] e by simp
  with Db e show ?thesis
    by (simp add: ImportBookmarks_favicons_def)
qed (simp_all add: ImportBookmarks_favicons_def)

lemma ImportBookmarks_data:
  assumes "ImportBookmarks ext flag files s = Returned s'"
  shows "\<exists>d. calls s' = calls s @ d \<and> (\<forall>c \<in> set d. \<not> is_notification c)"
proof -
  let ?content = "case Bookmarks files of None \<Rightarrow> [] | Some c \<Rightarrow> c"
  show ?thesis
  proof (cases "JSONReader_Read ext ?content")
    case None
    with assms show ?thesis by (simp add: ImportBookmarks_def)
  next
    case (Some json)
    show ?thesis
    proof (cases "GetAsDictionary json")
      case None
      with assms Some show ?thesis by (simp add: ImportBookmarks_def)
    next
      case dict: (Some bookmark_dict)
      from assms Some dict obtain bookmarks where
        b: "ImportBookmarks_roots ext bookmark_dict = Inr bookmarks"
        by (cases "ImportBookmarks_roots ext bookmark_dict") (simp_all add: ImportBookmarks_def)
      let ?s0 = "if bookmarks \<noteq> [] then
                   (if \<not> cancelled flag s
                    then bridge (AddBookmarks bookmarks ''Imported from Chrome'') (polled s)
                    else polled s)
                 else s"
      from assms Some dict b have s': "s' = ImportBookmarks_favicons ext flag files ?s0"
        by (simp add: ImportBookmarks_def)
      have "\<exists>d. calls ?s0 = calls s @ d \<and> (\<forall>c \<in> set d. \<not> is_notification c)"
        by simp
      then obtain d where d: "calls ?s0 = calls s @ d" "\<forall>c \<in> set d. \<not> is_notification c"
        by blast
      from ImportBookmarks_favicons_data [of ext flag files ?s0]
      obtain d' where d': "calls s' = calls ?s0 @ d'" "\<forall>c \<in> set d'. \<not> is_notification c"
        unfolding s' by blast
      from d d' show ?thesis
        by (intro exI [of _ "d @ d'"]) auto
    qed
  qed
qed

lemma ImportBookmarks_Terminated:
  "ImportBookmarks ext flag files s = Terminated e s' \<Longrightarrow> s' = s"
  by (auto simp: ImportBookmarks_def Let_def split: option.splits sum.splits)

lemma step_calls_Nil [simp]: "step_calls item []"
  by (simp add: step_calls_def)

lemma step_calls_block:
  "\<forall>c \<in> set d. \<not> is_notification c
     \<Longrightarrow> step_calls item (NotifyItemStarted item # d @ [NotifyItemEnded item])"
  by (auto simp: step_calls_def)

lemma StartImport_history_calls:
  "\<exists>h. calls (StartImport_history ext flag files items s) = calls s @ h \<and> step_calls HISTORY h"
proof (cases "requested items HISTORY \<and> \<not> cancelled flag s")
  case True
  from ImportHistory_data [of ext flag files "bridge (NotifyItemStarted HISTORY) (polled s)"]
  obtain d where "calls (ImportHistory ext flag files (bridge (NotifyItemStarted HISTORY) (polled s)))
      = calls (bridge (NotifyItemStarted HISTORY) (polled s)) @ d"
    "\<forall>c \<in> set d. \<not> is_notification c"
    by blast
  with True show ?thesis
    by (intro exI [of _ "NotifyItemStarted HISTORY # d @ [NotifyItemEnded HISTORY]"])
       (simp add: StartImport_history_def step_calls_block)
next
  case False
  then show ?thesis
    by (intro exI [of _ "[]"]) (auto simp: StartImport_history_def)
qed

lemma StartImport_cookies_calls:
  "\<exists>c. calls (StartImport_cookies flag files items s) = calls s @ c \<and> step_calls COOKIES c"
proof (cases "requested items COOKIES \<and> \<not> cancelled flag s")
  case True
  from ImportCookies_data [of flag files "bridge (NotifyItemStarted COOKIES) (polled s)"]
  obtain d where "calls (ImportCookies flag files (bridge (NotifyItemStarted COOKIES) (polled s)))
      = calls (bridge (NotifyItemStarted COOKIES) (polled s)) @ d"
    "\<forall>c \<in> set d. \<not> is_notification c"
    by blast
  with True show ?thesis
    by (intro exI [of _ "NotifyItemStarted COOKIES # d @ [NotifyItemEnded COOKIES]"])
       (simp add: StartImport_cookies_def step_calls_block)
next
  case False
  then show ?thesis
    by (intro exI [of _ "[]"]) (auto simp: StartImport_cookies_def)
qed

lemma StartImport_passwords_calls:
  "\<exists>p. calls (StartImport_passwords flag files items s) = calls s @ p \<and> step_calls PASSWORDS p"
proof (cases "requested items PASSWORDS \<and> \<not> cancelled flag s")
  case True
  from ImportPasswords_data [of files "bridge (NotifyItemStarted PASSWORDS) (polled s)"]
  obtain d where "calls (ImportPasswords files (bridge (NotifyItemStarted PASSWORDS) (polled s)))
      = calls (bridge (NotifyItemStarted PASSWORDS) (polled s)) @ d"
    "\<forall>c \<in> set d. \<not> is_notification c"
    by blast
  with True show ?thesis
    by (intro exI [of _ "NotifyItemStarted PASSWORDS # d @ [NotifyItemEnded PASSWORDS]"])
       (simp add: StartImport_passwords_def step_calls_block)
next
  case False
  then show ?thesis
    by (intro exI [of _ "[]"]) (auto simp: StartImport_passwords_def)
qed

lemma StartImport_favorites_calls:
  assumes "StartImport_favorites ext flag files items s = Returned s'"
  shows "\<exists>f. calls s' = calls s @ f \<and> step_calls FAVORITES f"
proof (cases "requested items FAVORITES \<and> \<not> cancelled flag s")
  case True
  let ?s0 = "bridge (NotifyItemStarted FAVORITES) (polled s)"
  from assms True obtain s1 where s1: "ImportBookmarks ext flag files ?s0 = Returned s1"
    "s' = bridge (NotifyItemEnded FAVORITES) s1"
    by (cases "ImportBookmarks ext flag files ?s0") (simp_all add: StartImport_favorites_def)
  from ImportBookmarks_data [OF s1(1)]
  obtain d where "calls s1 = calls ?s0 @ d" "\<forall>c \<in> set d. \<not> is_notification c"
    by blast
  with s1(2) show ?thesis
    by (intro exI [of _ "NotifyItemStarted FAVORITES # d @ [NotifyItemEnded FAVORITES]"])
       (simp add: step_calls_block)
next
  case False
  with assms show ?thesis
    by (intro exI [of _ "[]"]) (auto simp: StartImport_favorites_def split: if_splits)
qed

text \<open>
  The order of the signals in every run of \<open>StartImport\<close> that returns: "import started",
  then for History, Favorites, Cookies and Passwords, in this order, either nothing or
  "item started", the data calls of the item (possibly none), "item ended", and last
  "import ended".
\<close>

lemma StartImport_returned_protocol:
  assumes "StartImport ext flag files items s = Returned s'"
  shows "\<exists>h f c p. calls s' = calls s @ [NotifyStarted] @ h @ f @ c @ p @ [NotifyEnded]
           \<and> step_calls HISTORY h \<and> step_calls FAVORITES f
           \<and> step_calls COOKIES c \<and> step_calls PASSWORDS p"
proof -
  let ?s1 = "StartImport_history ext flag files items (bridge NotifyStarted s)"
  from assms obtain s2 where s2: "StartImport_favorites ext flag files items ?s1 = Returned s2"
    "s' = bridge NotifyEnded (StartImport_passwords flag files items
            (StartImport_cookies flag files items s2))"
    by (cases "StartImport_favorites ext flag files items ?s1") (simp_all add: StartImport_def)
  from StartImport_history_calls [of ext flag files items "bridge NotifyStarted s"]
  obtain h where h: "calls ?s1 = calls (bridge NotifyStarted s) @ h" "step_calls HISTORY h"
    by blast
  from StartImport_favorites_calls [OF s2(1)]
  obtain f where f: "calls s2 = calls ?s1 @ f" "step_calls FAVORITES f"
    by blast
  from StartImport_cookies_calls [of flag files items s2]
  obtain c where c: "calls (StartImport_cookies flag files items s2) = calls s2 @ c"
    "step_calls COOKIES c"
    by blast
  from StartImport_passwords_calls [of flag files items "StartImport_cookies flag files items s2"]
  obtain p where p: "calls (StartImport_passwords flag files items
        (StartImport_cookies flag files items s2))
      = calls (StartImport_cookies flag files items s2) @ p" "step_calls PASSWORDS p"
    by blast
  have "calls s' = calls s @ [NotifyStarted] @ h @ f @ c @ p @ [NotifyEnded]"
    by (simp add: s2(2) h(1) f(1) c(1) p(1))
  with h(2) f(2) c(2) p(2) show ?thesis by blast
qed

text \<open>
  Cancellation between two steps: if the flag reads set at the first read after the
  History step (and stays set), \<open>StartImport\<close> returns, and after the calls of the History
  step the bridge receives "import ended" and nothing else.
\<close>

lemma StartImport_cancelled_after_history:
  assumes "stays_set flag"
      and "flag (polls (StartImport_history ext flag files items (bridge NotifyStarted s)))"
  shows "\<exists>s' h. StartImport ext flag files items s = Returned s'
           \<and> calls s' = calls s @ [NotifyStarted] @ h @ [NotifyEnded] \<and> step_calls HISTORY h"
proof -
  let ?s1 = "StartImport_history ext flag files items (bridge NotifyStarted s)"
  from StartImport_history_calls [of ext flag files items "bridge NotifyStarted s"]
  obtain h where h: "calls ?s1 = calls (bridge NotifyStarted s) @ h" "step_calls HISTORY h"
    by blast
  have later: "flag k" if "polls ?s1 \<le> k" for k
    using assms that unfolding stays_set_def by blast
  define s2 where "s2 = (if requested items FAVORITES then polled ?s1 else ?s1)"
  have s2: "StartImport_favorites ext flag files items ?s1 = Returned s2"
    "calls s2 = calls ?s1" "polls ?s1 \<le> polls s2"
    using assms(2) by (simp_all add: s2_def StartImport_favorites_def cancelled_def)
  let ?s3 = "StartImport_cookies flag files items s2"
  have s3: "calls ?s3 = calls s2" "polls ?s1 \<le> polls ?s3"
    using later [of "polls s2"] s2(3) by (simp_all add: StartImport_cookies_def cancelled_def)
  let ?s4 = "StartImport_passwords flag files items ?s3"
  have s4: "calls ?s4 = calls ?s3"
    using later [of "polls ?s3"] s3(2) by (simp add: StartImport_passwords_def cancelled_def)
  have "StartImport ext flag files items s = Returned (bridge NotifyEnded ?s4)"
    using s2(1) by (simp add: StartImport_def)
  moreover have "calls (bridge NotifyEnded ?s4) = calls s @ [NotifyStarted] @ h @ [NotifyEnded]"
    by (simp add: s4 s3(1) s2(2) h(1))
  ultimately show ?thesis
    using h(2) by blast
qed

text \<open>
  Claim C4 at a failing input. Favorites is the only requested item and the Bookmarks
  file holds a leaf whose \<^verbatim>\<open>date_added\<close> is \<^verbatim>\<open>"yesterday"\<close>. The run signals
  "import started" and "item started" for Favorites; then the exception of \<open>stoll\<close>
  leaves \<open>ImportBookmarks\<close> and \<open>StartImport\<close>: neither "item ended" nor "import ended"
  is signalled.
\<close>

theorem unparseable_date_ends_import:
  "StartImport stubs never_set undated_profile (item_bit FAVORITES) fresh
     = Terminated invalid_argument \<lparr>polls = 1, calls = [NotifyStarted, NotifyItemStarted FAVORITES]\<rparr>"
  by (simp add: StartImport_def StartImport_history_def StartImport_favorites_def requested_def
      undated_profile_def bookmarks_eval)

end
